theory Spec2Isabelle
  imports Complex_Main "HOL-Library.Log_Nat"
begin

section \<open>JavaScript numbers\<close>

text \<open>
  The program computes with the JavaScript type \<^verbatim>\<open>number\<close>: IEEE 754 binary64 with
  round-to-nearest, ties-to-even. A number is a finite value (a real that the format
  represents), negative zero, an infinity or NaN. \<open>Num 0\<close> is positive zero.
\<close>

datatype jsnum = Num real | NegZero | PosInf | NegInf | NaN

text \<open>
  The binade of a non-zero real: the \<open>e\<close> with \<open>2 ^ e \<le> \<bar>x\<bar> < 2 ^ (e + 1)\<close>, computed
  from the bit length of the integer part (or of the reciprocal's integer part).
\<close>

definition bexp :: "real \<Rightarrow> int" where
  "bexp x =
     (if 1 \<le> \<bar>x\<bar> then bitlen \<lfloor>\<bar>x\<bar>\<rfloor> - 1
      else - bitlen (\<lceil>1 / \<bar>x\<bar>\<rceil> - 1))"

text \<open>Spacing of the binary64 grid around \<open>x\<close>: 52 fraction bits, subnormals below \<open>2 ^ -1022\<close>.\<close>

definition ulp :: "real \<Rightarrow> real" where
  "ulp x = 2 powi (max (bexp x) (- 1022) - 52)"

text \<open>Rounding a real to the nearest integer, a tie going to the even one.\<close>

definition rne :: "real \<Rightarrow> int" where
  "rne q =
     (let f = \<lfloor>q\<rfloor>; d = q - of_int f
      in if d < 1 / 2 then f
         else if 1 / 2 < d then f + 1
         else if even f then f else f + 1)"

text \<open>Rounding a real to the binary64 grid (the exponent is not yet bounded above).\<close>

definition rd :: "real \<Rightarrow> real" where
  "rd x = of_int (rne (x / ulp x)) * ulp x"

text \<open>
  The number a non-zero exact result \<open>x\<close> is delivered as: overflow gives an infinity,
  a negative result that rounds to zero gives negative zero.
\<close>

definition js_round :: "real \<Rightarrow> jsnum" where
  "js_round x =
     (let y = rd x
      in if 2 ^ 1024 \<le> y then PosInf
         else if y \<le> - (2 ^ 1024) then NegInf
         else if y = 0 \<and> x < 0 then NegZero
         else Num y)"

text \<open>A value of the type: special, or a finite real that rounding leaves alone.\<close>

fun is_double :: "jsnum \<Rightarrow> bool" where
  "is_double (Num x) = (js_round x = Num x)"
| "is_double _ = True"

fun is_nan :: "jsnum \<Rightarrow> bool" where
  "is_nan NaN = True"
| "is_nan _ = False"

fun is_inf :: "jsnum \<Rightarrow> bool" where
  "is_inf PosInf = True"
| "is_inf NegInf = True"
| "is_inf _ = False"

fun is_zero :: "jsnum \<Rightarrow> bool" where
  "is_zero (Num x) = (x = 0)"
| "is_zero NegZero = True"
| "is_zero _ = False"

text \<open>\<^verbatim>\<open>Number.isFinite\<close>.\<close>

fun is_finite :: "jsnum \<Rightarrow> bool" where
  "is_finite (Num x) = True"
| "is_finite NegZero = True"
| "is_finite _ = False"

text \<open>The sign bit.\<close>

fun sign_bit :: "jsnum \<Rightarrow> bool" where
  "sign_bit (Num x) = (x < 0)"
| "sign_bit NegZero = True"
| "sign_bit NegInf = True"
| "sign_bit _ = False"

text \<open>The real value of a finite number.\<close>

fun val :: "jsnum \<Rightarrow> real" where
  "val (Num x) = x"
| "val _ = 0"

definition signed_zero :: "bool \<Rightarrow> jsnum" where
  "signed_zero neg = (if neg then NegZero else Num 0)"

definition signed_inf :: "bool \<Rightarrow> jsnum" where
  "signed_inf neg = (if neg then NegInf else PosInf)"

text \<open>Unary minus flips the sign bit.\<close>

fun js_neg :: "jsnum \<Rightarrow> jsnum" where
  "js_neg (Num x) = (if x = 0 then NegZero else Num (- x))"
| "js_neg NegZero = Num 0"
| "js_neg PosInf = NegInf"
| "js_neg NegInf = PosInf"
| "js_neg NaN = NaN"

text \<open>\<^verbatim>\<open>a + b\<close> (Number::add).\<close>

definition js_add :: "jsnum \<Rightarrow> jsnum \<Rightarrow> jsnum" where
  "js_add a b =
     (if is_nan a \<or> is_nan b then NaN
      else if is_inf a then (if is_inf b \<and> sign_bit a \<noteq> sign_bit b then NaN else a)
      else if is_inf b then b
      else if is_zero a \<and> is_zero b then signed_zero (sign_bit a \<and> sign_bit b)
      else if val a + val b = 0 then Num 0
      else js_round (val a + val b))"

text \<open>\<^verbatim>\<open>a - b\<close> (Number::subtract) is \<^verbatim>\<open>a + (-b)\<close>.\<close>

definition js_sub :: "jsnum \<Rightarrow> jsnum \<Rightarrow> jsnum" where
  "js_sub a b = js_add a (js_neg b)"

text \<open>\<^verbatim>\<open>a * b\<close> (Number::multiply).\<close>

definition js_mul :: "jsnum \<Rightarrow> jsnum \<Rightarrow> jsnum" where
  "js_mul a b =
     (if is_nan a \<or> is_nan b then NaN
      else if is_inf a \<or> is_inf b then
        (if is_zero a \<or> is_zero b then NaN else signed_inf (sign_bit a \<noteq> sign_bit b))
      else if is_zero a \<or> is_zero b then signed_zero (sign_bit a \<noteq> sign_bit b)
      else js_round (val a * val b))"

text \<open>\<^verbatim>\<open>a / b\<close> (Number::divide): a division by zero is not an error.\<close>

definition js_div :: "jsnum \<Rightarrow> jsnum \<Rightarrow> jsnum" where
  "js_div a b =
     (if is_nan a \<or> is_nan b then NaN
      else if is_inf a then (if is_inf b then NaN else signed_inf (sign_bit a \<noteq> sign_bit b))
      else if is_inf b then signed_zero (sign_bit a \<noteq> sign_bit b)
      else if is_zero b then (if is_zero a then NaN else signed_inf (sign_bit a \<noteq> sign_bit b))
      else if is_zero a then signed_zero (sign_bit a \<noteq> sign_bit b)
      else js_round (val a / val b))"

text \<open>\<^verbatim>\<open>a > b\<close> and \<^verbatim>\<open>a <= b\<close>: false as soon as an operand is NaN; the zeros are equal.\<close>

definition js_lt :: "jsnum \<Rightarrow> jsnum \<Rightarrow> bool" where
  "js_lt a b =
     (\<not> is_nan a \<and> \<not> is_nan b \<and>
      (if a = NegInf then b \<noteq> NegInf
       else if a = PosInf then False
       else if b = PosInf then True
       else if b = NegInf then False
       else val a < val b))"

definition js_gt :: "jsnum \<Rightarrow> jsnum \<Rightarrow> bool" where
  "js_gt a b = js_lt b a"

definition js_le :: "jsnum \<Rightarrow> jsnum \<Rightarrow> bool" where
  "js_le a b = (\<not> is_nan a \<and> \<not> is_nan b \<and> \<not> js_lt b a)"

text \<open>A decimal literal of the source denotes the nearest double.\<close>

definition js_lit :: "real \<Rightarrow> jsnum" where
  "js_lit x = (if x = 0 then Num 0 else js_round x)"

text \<open>\<^verbatim>\<open>Number(n)\<close> for a bigint \<open>n\<close>: the nearest double.\<close>

definition Number_of_bigint :: "int \<Rightarrow> jsnum" where
  "Number_of_bigint n = (if n = 0 then Num 0 else js_round (of_int n))"

section \<open>Errors, effects and strings\<close>

datatype error = RangeError | InvalidDecimalNumberError | Error string

text \<open>
  What a run does besides computing: the handlers it enters, the calls the retry helper
  makes, the timers it waits on and the lines it prints or appends to the log file.
\<close>

datatype handler =
  MockSwap | MockCcipBridge | MockStargateBridge | RealSwap | RealCcipBridge | RealStargateBridge

datatype direction = USDC_first | USDT_first

datatype logline =
    RetryFailed nat error
  | DryRunNotice
  | SwapDetails string jsnum jsnum jsnum jsnum
  | BridgeInitiated handler jsnum
  | BridgeComplete handler jsnum
  | RoundTripComplete direction jsnum jsnum jsnum
  | PoolInfo string string string jsnum
  | DirectionReport string jsnum jsnum jsnum
  | Profitable direction jsnum
  | NoOpportunity
  | CycleError error

datatype event =
  Execute direction | Enter handler | Attempt | Sleep nat | Console logline | LogFile logline

text \<open>A computation with effects: the events in order, then the value or the error thrown.\<close>

type_synonym 'a io = "event list \<times> (error + 'a)"

definition io_return :: "'a \<Rightarrow> 'a io" where
  "io_return v = ([], Inr v)"

definition io_throw :: "error \<Rightarrow> 'a io" where
  "io_throw e = ([], Inl e)"

definition io_emit :: "event list \<Rightarrow> unit io" where
  "io_emit evs = (evs, Inr ())"

definition io_of :: "error + 'a \<Rightarrow> 'a io" where
  "io_of r = ([], r)"

definition io_bind :: "'a io \<Rightarrow> ('a \<Rightarrow> 'b io) \<Rightarrow> 'b io" where
  "io_bind m f =
     (case m of
        (t, Inl e) \<Rightarrow> (t, Inl e)
      | (t, Inr v) \<Rightarrow> (case f v of (t', r) \<Rightarrow> (t @ t', r)))"

definition err_bind :: "error + 'a \<Rightarrow> ('a \<Rightarrow> error + 'b) \<Rightarrow> error + 'b" where
  "err_bind m f = (case m of Inl e \<Rightarrow> Inl e | Inr v \<Rightarrow> f v)"

text \<open>
  \<^verbatim>\<open>String.prototype.toLowerCase\<close> on strings of ASCII characters, as the hexadecimal
  addresses of this program are: only the letters A to Z change. On cased letters outside
  ASCII the JavaScript function does more than this definition.
\<close>

definition lower_char :: "char \<Rightarrow> char" where
  "lower_char c =
     (let n = (of_char c :: nat) in if 65 \<le> n \<and> n \<le> 90 then char_of (n + 32) else c)"

definition toLowerCase :: "string \<Rightarrow> string" where
  "toLowerCase s = map lower_char s"

definition USDC :: string where
  "USDC = ''0xB97EF9Ef8734C71904D8002F8b6Bc66Dd9c48a6E''"

definition USDT :: string where
  "USDT = ''0xc7198437980c041c805A1EDcbA50c1Ce5db95118''"

definition getSymbol :: "string \<Rightarrow> string" where
  "getSymbol address =
     (if toLowerCase address = toLowerCase USDC then ''USDC''
      else if toLowerCase address = toLowerCase USDT then ''USDT''
      else ''UNKNOWN'')"

section \<open>Bigint arithmetic\<close>

text \<open>\<^verbatim>\<open>a ** b\<close> on bigints throws a RangeError for a negative exponent.\<close>

definition bigint_pow :: "int \<Rightarrow> int \<Rightarrow> error + int" where
  "bigint_pow a b = (if b < 0 then Inl RangeError else Inr (a ^ nat b))"

text \<open>\<^verbatim>\<open>a / b\<close> on bigints truncates towards zero and throws a RangeError for a zero divisor.\<close>

definition trunc_div :: "int \<Rightarrow> int \<Rightarrow> int" where
  "trunc_div a b = sgn a * sgn b * (\<bar>a\<bar> div \<bar>b\<bar>)"

definition bigint_div :: "int \<Rightarrow> int \<Rightarrow> error + int" where
  "bigint_div a b = (if b = 0 then Inl RangeError else Inr (trunc_div a b))"

section \<open>The price of a pool\<close>

text \<open>
  \<^verbatim>\<open>getPriceFromSqrtPriceX96BigInt\<close>. The decimal counts are the \<^verbatim>\<open>uint8\<close> values read
  from the token contracts, so \<^verbatim>\<open>BigInt(decimalsToken0 - decimalsToken1)\<close> is the integer
  difference.
\<close>

definition getPriceFromSqrtPriceX96BigInt :: "int \<Rightarrow> int \<Rightarrow> int \<Rightarrow> error + jsnum" where
  "getPriceFromSqrtPriceX96BigInt sqrtPriceX96 decimalsToken0 decimalsToken1 =
     err_bind (bigint_pow sqrtPriceX96 2) (\<lambda>sq.
     err_bind (bigint_pow 10 (decimalsToken0 - decimalsToken1)) (\<lambda>scale.
       let numerator = sq * scale;
           denominator = push_bit 192 (1 :: int);
           price = js_div (Number_of_bigint numerator) (Number_of_bigint denominator)
       in Inr price))"

section \<open>Simulating one direction\<close>

definition applySwapFee :: "jsnum \<Rightarrow> jsnum \<Rightarrow> jsnum" where
  "applySwapFee amount fee = js_mul amount (js_sub (Num 1) fee)"

record pool =
  token0 :: string
  token1 :: string
  price :: jsnum

record DirectionInput =
  startAmount :: jsnum
  poolA :: pool
  poolB :: pool
  swapFeeA :: jsnum
  swapFeeB :: jsnum
  bridgeCostA :: jsnum
  bridgeCostB :: jsnum
  directionLabel :: string
  tokenIn :: string
  tokenOut :: string
  decimalsIn :: "jsnum option"
  decimalsOut :: "jsnum option"
  minAmountOutFactor :: "jsnum option"

record DirectionResult =
  res_directionLabel :: string
  res_startAmount :: jsnum
  finalAmount :: jsnum
  profit :: jsnum
  minAmountOut :: jsnum
  res_tokenIn :: string
  res_tokenOut :: string

text \<open>An optional parameter left out takes its default.\<close>

definition minAmountOutFactor_or_default :: "DirectionInput \<Rightarrow> jsnum" where
  "minAmountOutFactor_or_default inp =
     (case minAmountOutFactor inp of None \<Rightarrow> js_lit (995 / 1000) | Some f \<Rightarrow> f)"

definition simulateDirection :: "DirectionInput \<Rightarrow> DirectionResult" where
  "simulateDirection inp =
     (let afterSwapA =
            (if toLowerCase (token0 (poolA inp)) = toLowerCase (tokenIn inp)
             then applySwapFee (js_mul (startAmount inp) (price (poolA inp))) (swapFeeA inp)
             else applySwapFee (js_div (startAmount inp) (price (poolA inp))) (swapFeeA inp));
          afterBridgeA = js_sub afterSwapA (bridgeCostA inp);
          afterSwapB =
            (if toLowerCase (token0 (poolB inp)) = toLowerCase (tokenOut inp)
             then applySwapFee (js_div afterBridgeA (price (poolB inp))) (swapFeeB inp)
             else applySwapFee (js_mul afterBridgeA (price (poolB inp))) (swapFeeB inp));
          finalAmount = js_sub afterSwapB (bridgeCostB inp);
          profit = js_sub finalAmount (startAmount inp);
          minAmountOut = js_mul (startAmount inp) (minAmountOutFactor_or_default inp)
      in \<lparr>res_directionLabel = directionLabel inp,
          res_startAmount = startAmount inp,
          finalAmount = finalAmount,
          profit = profit,
          minAmountOut = minAmountOut,
          res_tokenIn = getSymbol (tokenIn inp),
          res_tokenOut = getSymbol (tokenOut inp)\<rparr>)"

section \<open>Fixed-point helpers\<close>

text \<open>
  The conversions between numbers, strings and bigints belong to the JavaScript runtime
  (\<^verbatim>\<open>Number.prototype.toString\<close>, \<^verbatim>\<open>Number\<close>) and to the viem library
  (\<^verbatim>\<open>parseUnits\<close>, \<^verbatim>\<open>formatUnits\<close>), not to this repository: they are parameters. The
  random transaction hash of a mock swap is a parameter too.
\<close>

record runtime =
  numToString :: "jsnum \<Rightarrow> string"
  parseUnits :: "string \<Rightarrow> nat \<Rightarrow> error + int"
  formatUnits :: "int \<Rightarrow> nat \<Rightarrow> string"
  stringToNumber :: "string \<Rightarrow> jsnum"
  randomTxHash :: string

definition bn :: "runtime \<Rightarrow> jsnum \<Rightarrow> nat \<Rightarrow> error + int" where
  "bn rt num decimals = parseUnits rt (numToString rt num) decimals"

definition bnToNum :: "runtime \<Rightarrow> int \<Rightarrow> nat \<Rightarrow> jsnum" where
  "bnToNum rt bnVal decimals = stringToNumber rt (formatUnits rt bnVal decimals)"

definition bnMul :: "runtime \<Rightarrow> int \<Rightarrow> int \<Rightarrow> nat \<Rightarrow> error + int" where
  "bnMul rt a b decimals =
     err_bind (parseUnits rt ''1'' decimals) (\<lambda>unit. bigint_div (a * b) unit)"

definition bnDiv :: "runtime \<Rightarrow> int \<Rightarrow> int \<Rightarrow> nat \<Rightarrow> error + int" where
  "bnDiv rt a b decimals =
     err_bind (parseUnits rt ''1'' decimals) (\<lambda>unit. bigint_div (a * unit) b)"

section \<open>The retry helper\<close>

text \<open>
  \<^verbatim>\<open>retryAsync\<close>. The thunk \<open>fn\<close> is given the number of calls made before, so that a
  call may fail differently each time; \<open>Attempt\<close> marks each call. The loop counter
  \<open>attempt\<close> counts the failures so far.
\<close>

function retry_loop :: "(nat \<Rightarrow> 'a io) \<Rightarrow> nat \<Rightarrow> nat \<Rightarrow> nat \<Rightarrow> 'a io" where
  "retry_loop fn maxRetries baseDelay attempt =
     (case fn attempt of
        (t, Inr v) \<Rightarrow> (Attempt # t, Inr v)
      | (t, Inl err) \<Rightarrow>
          (if attempt + 1 > maxRetries
           then (Attempt # t @ [Console (RetryFailed (attempt + 1) err)], Inl err)
           else (case retry_loop fn maxRetries baseDelay (attempt + 1) of
                   (t', r) \<Rightarrow>
                     (Attempt # t @ [Console (RetryFailed (attempt + 1) err),
                                     Sleep (baseDelay * 2 ^ (attempt + 1 - 1))] @ t', r))))"
  by pat_completeness auto
termination
  by (relation "measure (\<lambda>(fn, maxRetries, baseDelay, attempt). maxRetries + 1 - attempt)") auto

declare retry_loop.simps [simp del]

definition retryAsync :: "(nat \<Rightarrow> 'a io) \<Rightarrow> nat \<Rightarrow> nat \<Rightarrow> 'a io" where
  "retryAsync fn maxRetries baseDelay = retry_loop fn maxRetries baseDelay 0"

section \<open>Mock and live handlers\<close>

record swap_result =
  amountOut :: jsnum
  txHash :: string

record bridge_result =
  amountReceived :: jsnum
  bridge_txHash :: string

definition mockCcipBridge ::
  "string \<Rightarrow> string \<Rightarrow> jsnum \<Rightarrow> string \<Rightarrow> jsnum option \<Rightarrow> nat option \<Rightarrow> bridge_result io" where
  "mockCcipBridge fromChain toChain amount token simulatedCost simulatedDelay =
     (let cost = (case simulatedCost of None \<Rightarrow> js_lit (1 / 10) | Some c \<Rightarrow> c);
          delay = (case simulatedDelay of None \<Rightarrow> 5000 | Some d \<Rightarrow> d)
      in io_bind (io_emit [Enter MockCcipBridge,
                           Console (BridgeInitiated MockCcipBridge amount),
                           LogFile (BridgeInitiated MockCcipBridge amount),
                           Sleep delay,
                           Console (BridgeComplete MockCcipBridge (js_sub amount cost)),
                           LogFile (BridgeComplete MockCcipBridge (js_sub amount cost))])
           (\<lambda>_. io_return \<lparr>amountReceived = js_sub amount cost,
                              bridge_txHash = ''0xmockccip''\<rparr>))"

definition mockStargateBridge ::
  "string \<Rightarrow> string \<Rightarrow> jsnum \<Rightarrow> string \<Rightarrow> jsnum option \<Rightarrow> nat option \<Rightarrow> bridge_result io" where
  "mockStargateBridge fromChain toChain amount token simulatedCost simulatedDelay =
     (let cost = (case simulatedCost of None \<Rightarrow> js_lit (1 / 10) | Some c \<Rightarrow> c);
          delay = (case simulatedDelay of None \<Rightarrow> 7000 | Some d \<Rightarrow> d)
      in io_bind (io_emit [Enter MockStargateBridge,
                           Console (BridgeInitiated MockStargateBridge amount),
                           LogFile (BridgeInitiated MockStargateBridge amount),
                           Sleep delay,
                           Console (BridgeComplete MockStargateBridge (js_sub amount cost)),
                           LogFile (BridgeComplete MockStargateBridge (js_sub amount cost))])
           (\<lambda>_. io_return \<lparr>amountReceived = js_sub amount cost,
                              bridge_txHash = ''0xmockstargate''\<rparr>))"

definition mockSwap ::
  "runtime \<Rightarrow> string \<Rightarrow> string \<Rightarrow> string \<Rightarrow> string \<Rightarrow> jsnum \<Rightarrow> jsnum \<Rightarrow> jsnum \<Rightarrow> jsnum option
     \<Rightarrow> swap_result io" where
  "mockSwap rt dex chain fromToken toToken amountIn swapPrice fee simulatedSlippage =
     (let slippage = (case simulatedSlippage of None \<Rightarrow> js_lit (5 / 10000) | Some s \<Rightarrow> s);
          decimals = 6
      in io_bind (io_emit [Enter MockSwap]) (\<lambda>_.
         io_bind (io_of (bn rt amountIn decimals)) (\<lambda>amountInBN.
         io_bind (io_of (bn rt swapPrice decimals)) (\<lambda>priceBN.
         io_bind (io_of
            (if toLowerCase fromToken = toLowerCase toToken then Inr amountInBN
             else if toLowerCase fromToken = toLowerCase USDC
               then bnMul rt amountInBN priceBN decimals
             else bnDiv rt amountInBN priceBN decimals)) (\<lambda>amountOutBeforeFeeBN.
         io_bind (io_of (bn rt (js_sub (Num 1) fee) decimals)) (\<lambda>feeBN.
         io_bind (io_of (bnMul rt amountOutBeforeFeeBN feeBN decimals)) (\<lambda>amountOutAfterFeeBN.
         io_bind (io_of (bn rt slippage decimals)) (\<lambda>slippageFractionBN.
         io_bind (io_of (bnMul rt amountOutAfterFeeBN slippageFractionBN decimals)) (\<lambda>slippageBN.
           let finalAmountOutBN = amountOutAfterFeeBN - slippageBN;
               line = SwapDetails dex amountIn
                        (bnToNum rt amountOutAfterFeeBN decimals)
                        (bnToNum rt slippageBN decimals)
                        (bnToNum rt finalAmountOutBN decimals)
           in io_bind (io_emit [Console line, LogFile line]) (\<lambda>_.
              io_return \<lparr>amountOut = bnToNum rt finalAmountOutBN decimals,
                         txHash = randomTxHash rt\<rparr>))))))))))"

text \<open>
  The live handlers are stubs: the retried call always throws. Their arguments are not
  read; \<open>Enter\<close> marks that the handler was called.
\<close>

definition realSwap ::
  "string \<Rightarrow> string \<Rightarrow> string \<Rightarrow> int \<Rightarrow> int \<Rightarrow> jsnum \<Rightarrow> string \<Rightarrow> string \<Rightarrow> swap_result io" where
  "realSwap router fromToken toToken amountIn minOut slippage chain wallet =
     io_bind (io_emit [Enter RealSwap]) (\<lambda>_.
       retryAsync (\<lambda>_. io_throw (Error ''realSwap not implemented'')) 3 1000)"

definition realCcipBridge ::
  "string \<Rightarrow> string \<Rightarrow> int \<Rightarrow> string \<Rightarrow> string \<Rightarrow> bridge_result io" where
  "realCcipBridge fromChain toChain amount token wallet =
     io_bind (io_emit [Enter RealCcipBridge]) (\<lambda>_.
       retryAsync (\<lambda>_. io_throw (Error ''realCcipBridge not implemented'')) 3 1000)"

definition realStargateBridge ::
  "string \<Rightarrow> string \<Rightarrow> int \<Rightarrow> string \<Rightarrow> string \<Rightarrow> bridge_result io" where
  "realStargateBridge fromChain toChain amount token wallet =
     io_bind (io_emit [Enter RealStargateBridge]) (\<lambda>_.
       retryAsync (\<lambda>_. io_throw (Error ''realStargateBridge not implemented'')) 3 1000)"

section \<open>The execution pipeline\<close>

text \<open>The process-wide configuration of \<^verbatim>\<open>config.ts\<close>, read from the environment.\<close>

record config =
  ROUTERS_PHARAOH :: string
  ROUTERS_SHADOW :: string
  FEES_PHARAOH :: jsnum
  FEES_SHADOW :: jsnum
  FEES_BRIDGE_USDT :: jsnum
  FEES_BRIDGE_USDC :: jsnum
  PROFIT_THRESHOLD :: jsnum
  START_USDC :: jsnum
  LIVE_MODE :: bool
  WALLET_PRIVATE_KEY :: string

text \<open>The configuration when no environment variable is set.\<close>

definition default_config :: config where
  "default_config =
     \<lparr>ROUTERS_PHARAOH = ''0x3fC91A3afd70395Cd496C647d5a6CC9D4B2b7FAD'',
      ROUTERS_SHADOW = [],
      FEES_PHARAOH = js_lit (5 / 100000),
      FEES_SHADOW = js_lit (1 / 10000),
      FEES_BRIDGE_USDT = js_lit (1 / 10),
      FEES_BRIDGE_USDC = js_lit (1 / 10),
      PROFIT_THRESHOLD = js_lit (1 / 100),
      START_USDC = Num 10,
      LIVE_MODE = False,
      WALLET_PRIVATE_KEY = []\<rparr>"

text \<open>
  \<^verbatim>\<open>simulateExecution\<close>: four stages, each live or mocked by \<^verbatim>\<open>LIVE_MODE\<close>. The
  arguments of a live call are evaluated before the call. \<open>Execute\<close> marks the entry.
\<close>

definition simulateExecution :: "config \<Rightarrow> runtime \<Rightarrow> direction \<Rightarrow> pool \<Rightarrow> pool \<Rightarrow> unit io" where
  "simulateExecution cfg rt dir pharaoh shadow =
     io_bind (io_emit (Execute dir # (if LIVE_MODE cfg then [] else [Console DryRunNotice]))) (\<lambda>_.
     (case dir of
        USDC_first \<Rightarrow>
          (let usdc = START_USDC cfg in
           io_bind
             (if LIVE_MODE cfg
              then io_bind (io_of (bn rt usdc 6)) (\<lambda>amountInBN.
                   io_bind (io_of (bn rt (Num 0) 6)) (\<lambda>minOutBN.
                     realSwap (ROUTERS_PHARAOH cfg) USDC USDT amountInBN minOutBN
                       (js_lit (1 / 1000)) ''Avalanche'' (WALLET_PRIVATE_KEY cfg)))
              else mockSwap rt ''Pharaoh'' ''Avalanche'' USDC USDT usdc (price pharaoh)
                     (FEES_PHARAOH cfg) None) (\<lambda>swap1.
           io_bind
             (if LIVE_MODE cfg
              then io_bind (io_of (bn rt (amountOut swap1) 6)) (\<lambda>amountBN.
                     realStargateBridge ''Avalanche'' ''Sonic'' amountBN USDT
                       (WALLET_PRIVATE_KEY cfg))
              else mockStargateBridge ''Avalanche'' ''Sonic'' (amountOut swap1) USDT
                     None None) (\<lambda>bridge1.
           io_bind
             (if LIVE_MODE cfg
              then io_bind (io_of (bn rt (amountReceived bridge1) 6)) (\<lambda>amountInBN.
                   io_bind (io_of (bn rt (Num 0) 6)) (\<lambda>minOutBN.
                     realSwap (ROUTERS_SHADOW cfg) USDT USDC amountInBN minOutBN
                       (js_lit (1 / 1000)) ''Sonic'' (WALLET_PRIVATE_KEY cfg)))
              else mockSwap rt ''Shadow'' ''Sonic'' USDT USDC (amountReceived bridge1)
                     (price shadow) (FEES_SHADOW cfg) None) (\<lambda>swap2.
           io_bind
             (if LIVE_MODE cfg
              then io_bind (io_of (bn rt (amountOut swap2) 6)) (\<lambda>amountBN.
                     realCcipBridge ''Sonic'' ''Avalanche'' amountBN USDC
                       (WALLET_PRIVATE_KEY cfg))
              else mockCcipBridge ''Sonic'' ''Avalanche'' (amountOut swap2) USDC
                     None None) (\<lambda>bridge2.
           io_emit [Console (RoundTripComplete USDC_first (START_USDC cfg)
                      (amountReceived bridge2)
                      (js_sub (amountReceived bridge2) (START_USDC cfg)))])))))
      | USDT_first \<Rightarrow>
          (let usdt = START_USDC cfg in
           io_bind
             (if LIVE_MODE cfg
              then io_bind (io_of (bn rt usdt 6)) (\<lambda>amountInBN.
                   io_bind (io_of (bn rt (Num 0) 6)) (\<lambda>minOutBN.
                     realSwap (ROUTERS_PHARAOH cfg) USDT USDC amountInBN minOutBN
                       (js_lit (1 / 1000)) ''Avalanche'' (WALLET_PRIVATE_KEY cfg)))
              else mockSwap rt ''Pharaoh'' ''Avalanche'' USDT USDC usdt (price pharaoh)
                     (FEES_PHARAOH cfg) None) (\<lambda>swap1.
           io_bind
             (if LIVE_MODE cfg
              then io_bind (io_of (bn rt (amountOut swap1) 6)) (\<lambda>amountBN.
                     realCcipBridge ''Avalanche'' ''Sonic'' amountBN USDC
                       (WALLET_PRIVATE_KEY cfg))
              else mockCcipBridge ''Avalanche'' ''Sonic'' (amountOut swap1) USDC
                     None None) (\<lambda>bridge1.
           io_bind
             (if LIVE_MODE cfg
              then io_bind (io_of (bn rt (amountReceived bridge1) 6)) (\<lambda>amountInBN.
                   io_bind (io_of (bn rt (Num 0) 6)) (\<lambda>minOutBN.
                     realSwap (ROUTERS_SHADOW cfg) USDC USDT amountInBN minOutBN
                       (js_lit (1 / 1000)) ''Sonic'' (WALLET_PRIVATE_KEY cfg)))
              else mockSwap rt ''Shadow'' ''Sonic'' USDC USDT (amountReceived bridge1)
                     (price shadow) (FEES_SHADOW cfg) None) (\<lambda>swap2.
           io_bind
             (if LIVE_MODE cfg
              then io_bind (io_of (bn rt (amountOut swap2) 6)) (\<lambda>amountBN.
                     realStargateBridge ''Sonic'' ''Avalanche'' amountBN USDT
                       (WALLET_PRIVATE_KEY cfg))
              else mockStargateBridge ''Sonic'' ''Avalanche'' (amountOut swap2) USDT
                     None None) (\<lambda>bridge2.
           io_emit [Console (RoundTripComplete USDT_first (START_USDC cfg)
                      (amountReceived bridge2)
                      (js_sub (amountReceived bridge2) (START_USDC cfg)))])))))))"

section \<open>One polling cycle\<close>

text \<open>The arrow of the direction labels, in UTF-8.\<close>

definition arrow :: string where
  "arrow = [char_of (226 :: nat), char_of (134 :: nat), char_of (146 :: nat)]"

definition direction1 :: "config \<Rightarrow> pool \<Rightarrow> pool \<Rightarrow> DirectionInput" where
  "direction1 cfg pharaoh shadow =
     \<lparr>startAmount = START_USDC cfg, poolA = pharaoh, poolB = shadow,
      swapFeeA = FEES_PHARAOH cfg, swapFeeB = FEES_SHADOW cfg,
      bridgeCostA = FEES_BRIDGE_USDT cfg, bridgeCostB = FEES_BRIDGE_USDC cfg,
      directionLabel = ''USDC'' @ arrow @ ''USDT'' @ arrow @ ''USDC'',
      tokenIn = USDC, tokenOut = USDC,
      decimalsIn = None, decimalsOut = None, minAmountOutFactor = None\<rparr>"

definition direction2 :: "config \<Rightarrow> pool \<Rightarrow> pool \<Rightarrow> DirectionInput" where
  "direction2 cfg pharaoh shadow =
     \<lparr>startAmount = START_USDC cfg, poolA = pharaoh, poolB = shadow,
      swapFeeA = FEES_PHARAOH cfg, swapFeeB = FEES_SHADOW cfg,
      bridgeCostA = FEES_BRIDGE_USDC cfg, bridgeCostB = FEES_BRIDGE_USDT cfg,
      directionLabel = ''USDT'' @ arrow @ ''USDC'' @ arrow @ ''USDT'',
      tokenIn = USDT, tokenOut = USDT,
      decimalsIn = None, decimalsOut = None, minAmountOutFactor = None\<rparr>"

definition report :: "DirectionResult \<Rightarrow> event" where
  "report dir =
     Console (DirectionReport (res_directionLabel dir) (res_startAmount dir)
                (finalAmount dir) (profit dir))"

text \<open>
  \<^verbatim>\<open>simulateArbitrage\<close>. The two quotes are what \<^verbatim>\<open>getPharaohPrice\<close> and
  \<^verbatim>\<open>getShadowPrice\<close> deliver from the chain (or the error they throw). Whatever is
  thrown inside the cycle is caught and logged.
\<close>

definition simulateArbitrage ::
  "config \<Rightarrow> runtime \<Rightarrow> error + pool \<Rightarrow> error + pool \<Rightarrow> unit io" where
  "simulateArbitrage cfg rt pharaohQuote shadowQuote =
     (case
        io_bind (io_of pharaohQuote) (\<lambda>pharaoh.
        io_bind (io_of shadowQuote) (\<lambda>shadow.
        io_bind (io_emit
           [Console (PoolInfo ''Pharaoh'' (token0 pharaoh) (token1 pharaoh) (price pharaoh)),
            Console (PoolInfo ''Shadow'' (token0 shadow) (token1 shadow) (price shadow))]) (\<lambda>_.
          let dir1 = simulateDirection (direction1 cfg pharaoh shadow);
              dir2 = simulateDirection (direction2 cfg pharaoh shadow)
          in io_bind (io_emit [report dir1, report dir2]) (\<lambda>_.
               if js_gt (profit dir1) (PROFIT_THRESHOLD cfg) then
                 io_bind (io_emit [Console (Profitable USDC_first (profit dir1))]) (\<lambda>_.
                   simulateExecution cfg rt USDC_first pharaoh shadow)
               else if js_gt (profit dir2) (PROFIT_THRESHOLD cfg) then
                 io_bind (io_emit [Console (Profitable USDT_first (profit dir2))]) (\<lambda>_.
                   simulateExecution cfg rt USDT_first pharaoh shadow)
               else io_emit [Console NoOpportunity]))))
      of
        (t, Inl err) \<Rightarrow> (t @ [Console (CycleError err)], Inr ())
      | (t, Inr u) \<Rightarrow> (t, Inr u))"

section \<open>Observations on a run\<close>



text \<open>The directions whose execution was started, in order.\<close>

fun executions :: "event list \<Rightarrow> direction list" where
  "executions [] = []"
| "executions (Execute d # t) = d # executions t"
| "executions (_ # t) = executions t"

text \<open>An event of the live path: a live collaborator is entered or a retried call is made.\<close>

fun live_event :: "event \<Rightarrow> bool" where
  "live_event (Enter RealSwap) = True"
| "live_event (Enter RealCcipBridge) = True"
| "live_event (Enter RealStargateBridge) = True"
| "live_event Attempt = True"
| "live_event _ = False"

text \<open>
  What can make a mock handler throw: the RangeError of a bigint division by zero, or
  whatever \<^verbatim>\<open>parseUnits\<close> throws on some string.
\<close>

definition mock_failure :: "runtime \<Rightarrow> error \<Rightarrow> bool" where
  "mock_failure rt e = (e = RangeError \<or> (\<exists>s d. parseUnits rt s d = Inl e))"

text \<open>The product of two amounts in 6-decimal fixed point, truncated.\<close>

definition fixed6_mul :: "int \<Rightarrow> int \<Rightarrow> int" where
  "fixed6_mul a b = trunc_div (a * b) 1000000"

section \<open>The four steps as the specification words them\<close>

definition same_address :: "string \<Rightarrow> string \<Rightarrow> bool" where
  "same_address a b = (toLowerCase a = toLowerCase b)"

definition step_afterSwapA :: "DirectionInput \<Rightarrow> jsnum" where
  "step_afterSwapA inp =
     (if same_address (token0 (poolA inp)) (tokenIn inp)
      then applySwapFee (js_mul (startAmount inp) (price (poolA inp))) (swapFeeA inp)
      else applySwapFee (js_div (startAmount inp) (price (poolA inp))) (swapFeeA inp))"

definition step_afterBridgeA :: "DirectionInput \<Rightarrow> jsnum" where
  "step_afterBridgeA inp = js_sub (step_afterSwapA inp) (bridgeCostA inp)"

definition step_afterSwapB :: "DirectionInput \<Rightarrow> jsnum" where
  "step_afterSwapB inp =
     (if same_address (token0 (poolB inp)) (tokenOut inp)
      then applySwapFee (js_div (step_afterBridgeA inp) (price (poolB inp))) (swapFeeB inp)
      else applySwapFee (js_mul (step_afterBridgeA inp) (price (poolB inp))) (swapFeeB inp))"

definition step_finalAmount :: "DirectionInput \<Rightarrow> jsnum" where
  "step_finalAmount inp = js_sub (step_afterSwapB inp) (bridgeCostB inp)"

section \<open>Sample inputs\<close>


text \<open>A round trip without fees or bridge costs over two pools listing the same token first.\<close>

definition free_round_trip :: "jsnum \<Rightarrow> jsnum \<Rightarrow> jsnum \<Rightarrow> string \<Rightarrow> string \<Rightarrow> DirectionInput" where
  "free_round_trip start priceA priceB firstA firstB =
     \<lparr>startAmount = start,
      poolA = \<lparr>token0 = firstA, token1 = ''0xB'', price = priceA\<rparr>,
      poolB = \<lparr>token0 = firstB, token1 = ''0xC'', price = priceB\<rparr>,
      swapFeeA = Num 0, swapFeeB = Num 0,
      bridgeCostA = Num 0, bridgeCostB = Num 0,
      directionLabel = ''round trip'',
      tokenIn = ''0xA'', tokenOut = ''0xA'',
      decimalsIn = None, decimalsOut = None, minAmountOutFactor = None\<rparr>"

text \<open>
  A runtime cut down to the conversions that the sample runs make, with 6 decimals: each
  line is what JavaScript and viem return on that argument (\<^verbatim>\<open>(10).toString()\<close> is
  \<^verbatim>\<open>"10"\<close>, \<^verbatim>\<open>(9.995 - 0.1).toString()\<close> is \<^verbatim>\<open>"9.895"\<close>, \<^verbatim>\<open>parseUnits("0.0005", 6)\<close>
  is \<^verbatim>\<open>500n\<close>, \<^verbatim>\<open>formatUnits(4947n, 6)\<close> is \<^verbatim>\<open>"0.004947"\<close>, \<^verbatim>\<open>Number("9.995")\<close> is
  the double nearest to 9.995). The sample runs reach no other argument.
\<close>

definition sample_runtime :: runtime where
  "sample_runtime =
     \<lparr>numToString =
        (\<lambda>x. if x = Num 10 then ''10'' else if x = Num 1 then ''1''
              else if x = Num 0 then ''0''
              else if x = js_lit (5 / 10000) then ''0.0005''
              else if x = js_sub (js_lit (9995 / 1000)) (js_lit (1 / 10)) then ''9.895''
              else ''NaN''),
      parseUnits =
        (\<lambda>s d. if s = ''10'' then Inr 10000000 else if s = ''1'' then Inr 1000000
                else if s = ''0'' then Inr 0
                else if s = ''0.0005'' then Inr 500
                else if s = ''9.895'' then Inr 9895000
                else Inl InvalidDecimalNumberError),
      formatUnits =
        (\<lambda>n d. if n = 10000000 then ''10'' else if n = 1000000 then ''1''
                else if n = 0 then ''0''
                else if n = 5000 then ''0.005''
                else if n = 9995000 then ''9.995''
                else if n = 9895000 then ''9.895''
                else if n = 4947 then ''0.004947''
                else if n = 9890053 then ''9.890053''
                else ''NaN''),
      stringToNumber =
        (\<lambda>s. if s = ''10'' then Num 10 else if s = ''1'' then Num 1
              else if s = ''0'' then Num 0
              else if s = ''0.005'' then js_lit (5 / 1000)
              else if s = ''9.995'' then js_lit (9995 / 1000)
              else if s = ''9.895'' then js_lit (9895 / 1000)
              else if s = ''0.004947'' then js_lit (4947 / 1000000)
              else if s = ''9.890053'' then js_lit (9890053 / 1000000)
              else NaN),
      randomTxHash = ''0x2386f26fc10000''\<rparr>"

definition sample_config :: config where
  "sample_config =
     \<lparr>ROUTERS_PHARAOH = ''0x3fC91A3afd70395Cd496C647d5a6CC9D4B2b7FAD'',
      ROUTERS_SHADOW = [],
      FEES_PHARAOH = Num 0,
      FEES_SHADOW = Num 0,
      FEES_BRIDGE_USDT = Num 0,
      FEES_BRIDGE_USDC = Num 0,
      PROFIT_THRESHOLD = Num 0,
      START_USDC = Num 10,
      LIVE_MODE = False,
      WALLET_PRIVATE_KEY = []\<rparr>"

section \<open>Properties of rounding\<close>

lemma rne_of_int [simp]: "rne (of_int n) = n"
  by (simp add: rne_def)

lemma rne_0 [simp]: "rne 0 = 0"
  using rne_of_int[of 0] by simp

lemma rne_bounds: "\<bar>of_int (rne q) - q\<bar> \<le> 1 / 2"
  unfolding rne_def Let_def by (auto; linarith)

lemma rne_mono: "x \<le> y \<Longrightarrow> rne x \<le> rne y"
proof -
  assume xy: "x \<le> y"
  have fl: "\<lfloor>x\<rfloor> \<le> \<lfloor>y\<rfloor>" using xy by (rule floor_mono)
  show ?thesis
  proof (cases "\<lfloor>x\<rfloor> = \<lfloor>y\<rfloor>")
    case True
    then show ?thesis using xy unfolding rne_def Let_def by auto
  next
    case False
    then have "\<lfloor>x\<rfloor> + 1 \<le> \<lfloor>y\<rfloor>" using fl by simp
    moreover have "rne x \<le> \<lfloor>x\<rfloor> + 1" unfolding rne_def Let_def by auto
    moreover have "\<lfloor>y\<rfloor> \<le> rne y" unfolding rne_def Let_def by auto
    ultimately show ?thesis by linarith
  qed
qed

lemma bexp_bounds:
  assumes "x \<noteq> 0"
  shows "2 powi (bexp x) \<le> \<bar>x\<bar> \<and> \<bar>x\<bar> < 2 powi (bexp x + 1)"
proof (cases "1 \<le> \<bar>x\<bar>")
  case True
  define n where "n = \<lfloor>\<bar>x\<bar>\<rfloor>"
  have npos: "0 < n" using True by (simp add: n_def)
  have b: "2 ^ nat (bitlen n - 1) \<le> n \<and> n < 2 ^ nat (bitlen n)"
    using bitlen_bounds[OF npos] .
  have b1: "1 \<le> bitlen n" using npos by (auto simp: bitlen_alt_def)
  have e: "bexp x = bitlen n - 1" using True by (simp add: bexp_def n_def)
  have "(2::real) powi (bitlen n - 1) = of_int (2 ^ nat (bitlen n - 1))"
    using b1 by (simp add: power_int_def)
  also have "\<dots> \<le> of_int n" using b by linarith
  also have "\<dots> \<le> \<bar>x\<bar>" by (simp add: n_def)
  finally have lo: "2 powi (bexp x) \<le> \<bar>x\<bar>" by (simp add: e)
  have "\<bar>x\<bar> < of_int (n + 1)" unfolding n_def by linarith
  also have "\<dots> \<le> of_int (2 ^ nat (bitlen n))" using b by linarith
  also have "\<dots> = (2::real) powi (bitlen n)" using b1 by (simp add: power_int_def)
  finally have hi: "\<bar>x\<bar> < 2 powi (bexp x + 1)" by (simp add: e)
  show ?thesis using lo hi by simp
next
  case False
  define y where "y = 1 / \<bar>x\<bar>"
  have xpos: "0 < \<bar>x\<bar>" using assms by simp
  have y1: "1 < y" using False xpos by (simp add: y_def)
  define n where "n = \<lceil>y\<rceil> - 1"
  have npos: "0 < n" using y1 unfolding n_def by linarith
  have b: "2 ^ nat (bitlen n - 1) \<le> n \<and> n < 2 ^ nat (bitlen n)"
    using bitlen_bounds[OF npos] .
  have b1: "1 \<le> bitlen n" using npos by (auto simp: bitlen_alt_def)
  have e: "bexp x = - bitlen n" using False by (simp add: bexp_def n_def y_def)
  have ylo: "(2::real) powi (bitlen n - 1) < y"
  proof -
    have "(2::real) powi (bitlen n - 1) = of_int (2 ^ nat (bitlen n - 1))"
      using b1 by (simp add: power_int_def)
    also have "\<dots> \<le> of_int n" using b by linarith
    also have "\<dots> < y" unfolding n_def by linarith
    finally show ?thesis .
  qed
  have yhi: "y \<le> (2::real) powi (bitlen n)"
  proof -
    have "y \<le> of_int (n + 1)" unfolding n_def by linarith
    also have "\<dots> \<le> of_int (2 ^ nat (bitlen n))" using b by linarith
    also have "\<dots> = (2::real) powi (bitlen n)" using b1 by (simp add: power_int_def)
    finally show ?thesis .
  qed
  have x_eq: "\<bar>x\<bar> = 1 / y" by (simp add: y_def)
  have p0: "0 < (2::real) powi (bitlen n)" by simp
  have p1: "0 < (2::real) powi (bitlen n - 1)" by simp
  have lo: "2 powi (- bitlen n) \<le> \<bar>x\<bar>"
    unfolding x_eq power_int_minus_divide using yhi y1 p0
    by (intro divide_left_mono) auto
  have hi: "\<bar>x\<bar> < 2 powi (- bitlen n + 1)"
  proof -
    have "1 / y < 1 / 2 powi (bitlen n - 1)"
      using ylo p1 y1 by (intro divide_strict_left_mono mult_pos_pos) auto
    also have "\<dots> = 2 powi (- (bitlen n - 1))" by (simp only: power_int_minus_divide)
    also have "- (bitlen n - 1) = - bitlen n + 1" by simp
    finally show ?thesis by (simp only: x_eq)
  qed
  show ?thesis using lo hi by (simp add: e)
qed

lemma pow2_less_D: "(2::real) powi a < 2 powi b \<Longrightarrow> a < b"
  using power_int_increasing[of b a "2::real"] by (cases "a < b") auto

lemma bexp_unique:
  assumes "2 powi e \<le> \<bar>x\<bar>" "\<bar>x\<bar> < 2 powi (e + 1)"
  shows "bexp x = e"
proof -
  have "0 < (2::real) powi e" by simp
  then have "0 < \<bar>x\<bar>" using assms(1) by linarith
  then have x0: "x \<noteq> 0" by auto
  note b = bexp_bounds[OF x0]
  have "(2::real) powi e < 2 powi (bexp x + 1)" using assms(1) b by linarith
  then have 1: "e < bexp x + 1" by (rule pow2_less_D)
  have "(2::real) powi (bexp x) < 2 powi (e + 1)" using assms(2) b by linarith
  then have 2: "bexp x < e + 1" by (rule pow2_less_D)
  show ?thesis using 1 2 by linarith
qed

lemma ulp_pos: "0 < ulp x"
  by (simp add: ulp_def)

lemma rd_abs_err: "\<bar>rd x - x\<bar> \<le> ulp x / 2"
proof -
  have u: "0 < ulp x" by (rule ulp_pos)
  have "\<bar>of_int (rne (x / ulp x)) - x / ulp x\<bar> \<le> 1 / 2" by (rule rne_bounds)
  then have "\<bar>of_int (rne (x / ulp x)) - x / ulp x\<bar> * ulp x \<le> 1 / 2 * ulp x"
    using u by (intro mult_right_mono) auto
  moreover have "\<bar>of_int (rne (x / ulp x)) - x / ulp x\<bar> * ulp x = \<bar>rd x - x\<bar>"
  proof -
    have "\<bar>of_int (rne (x / ulp x)) - x / ulp x\<bar> * ulp x
        = \<bar>(of_int (rne (x / ulp x)) - x / ulp x) * ulp x\<bar>"
      using u by (simp add: abs_mult)
    also have "(of_int (rne (x / ulp x)) - x / ulp x) * ulp x = rd x - x"
      using u by (simp add: rd_def algebra_simps)
    finally show ?thesis .
  qed
  ultimately show ?thesis by simp
qed

lemma rd_dyadic:
  assumes m: "\<bar>m\<bar> < 2 ^ 53" and k: "- 1074 \<le> k"
  shows "rd (of_int m * 2 powi k) = of_int m * 2 powi k"
proof (cases "m = 0")
  case True
  then show ?thesis by (simp add: rd_def)
next
  case False
  define x :: real where "x = of_int m * 2 powi k"
  have x0: "x \<noteq> 0" using False by (simp add: x_def)
  have "\<bar>x\<bar> = of_int \<bar>m\<bar> * 2 powi k" by (simp add: x_def abs_mult)
  also have "\<dots> < of_int (2 ^ 53) * 2 powi k"
    using m by (intro mult_strict_right_mono) auto
  also have "\<dots> = 2 powi (53 + k)" by (simp add: power_int_add)
  finally have "\<bar>x\<bar> < 2 powi (53 + k)" .
  with bexp_bounds[OF x0] have "(2::real) powi (bexp x) < 2 powi (53 + k)" by linarith
  then have e: "bexp x < 53 + k" by (rule pow2_less_D)
  define j where "j = max (bexp x) (- 1022) - 52"
  have jk: "j \<le> k" using e k by (simp add: j_def)
  have u: "ulp x = 2 powi j" by (simp add: ulp_def j_def)
  have "x / 2 powi j = of_int m * 2 powi (k - j)"
    by (simp add: x_def power_int_diff)
  also have "\<dots> = of_int (m * 2 ^ nat (k - j))"
    using jk by (simp add: power_int_def)
  finally have q: "x / 2 powi j = of_int (m * 2 ^ nat (k - j))" .
  have "rd x = of_int (rne (x / 2 powi j)) * 2 powi j"
    by (simp only: rd_def u)
  also have "\<dots> = of_int (m * 2 ^ nat (k - j)) * 2 powi j"
    by (simp only: q rne_of_int)
  also have "\<dots> = of_int m * (2 powi (k - j) * 2 powi j)"
    using jk by (simp add: power_int_def)
  also have "2 powi (k - j) * 2 powi j = (2::real) powi k"
    by (simp flip: power_int_add)
  finally show ?thesis by (simp add: x_def)
qed

lemma rd_nonneg: "0 \<le> x \<Longrightarrow> 0 \<le> rd x"
proof -
  assume "0 \<le> x"
  then have "0 \<le> x / ulp x" using ulp_pos[of x] by simp
  then have "rne 0 \<le> rne (x / ulp x)" by (rule rne_mono)
  then have "0 \<le> rne (x / ulp x)" by simp
  then show ?thesis using ulp_pos[of x] by (simp add: rd_def)
qed

lemma pow2_scale: "of_int (2 ^ n) * 2 powi k = (2::real) powi (k + int n)"
  by (simp add: power_int_add)

lemma bexp_mono_pos:
  assumes "0 < x" "x \<le> y"
  shows "bexp x \<le> bexp y"
proof -
  have x0: "x \<noteq> 0" and y0: "y \<noteq> 0" using assms by auto
  have "(2::real) powi (bexp x) < 2 powi (bexp y + 1)"
    using bexp_bounds[OF x0] bexp_bounds[OF y0] assms by linarith
  then have "bexp x < bexp y + 1" by (rule pow2_less_D)
  then show ?thesis by simp
qed

lemma rne_abs_le:
  assumes "\<bar>q\<bar> \<le> of_int n"
  shows "\<bar>rne q\<bar> \<le> n"
proof -
  have "rne q \<le> rne (of_int n)" using assms by (intro rne_mono) linarith
  moreover have "rne (of_int (- n)) \<le> rne q" using assms by (intro rne_mono) simp
  ultimately have "rne q \<le> n" "- n \<le> rne q" by (simp_all only: rne_of_int)
  then show ?thesis by linarith
qed

text \<open>A non-zero real measured in units of its own spacing stays below \<open>2 ^ 53\<close>.\<close>

lemma scaled_less:
  assumes "x \<noteq> 0"
  shows "\<bar>x / ulp x\<bar> < 2 ^ 53"
proof -
  define E where "E = max (bexp x) (- 1022)"
  have u: "ulp x = 2 powi (E - 52)" by (simp add: ulp_def E_def)
  have "\<bar>x\<bar> < 2 powi (bexp x + 1)" using bexp_bounds[OF assms] by simp
  also have "\<dots> \<le> 2 powi (E + 1)" by (intro power_int_increasing) (auto simp: E_def)
  finally have "\<bar>x\<bar> < 2 powi (E + 1)" .
  then have "\<bar>x\<bar> / 2 powi (E - 52) < 2 powi (E + 1) / 2 powi (E - 52)"
    by (intro divide_strict_right_mono) auto
  also have "2 powi (E + 1) / 2 powi (E - 52) = (2::real) powi 53"
    by (simp flip: power_int_diff)
  finally show ?thesis by (simp add: u)
qed

lemma rd_idem: "rd (rd x) = rd x"
proof (cases "x = 0")
  case True
  then show ?thesis by (simp add: rd_def)
next
  case False
  define j where "j = max (bexp x) (- 1022) - 52"
  define N where "N = rne (x / ulp x)"
  have u: "ulp x = 2 powi j" by (simp add: ulp_def j_def)
  have j: "- 1074 \<le> j" by (simp add: j_def)
  have r: "rd x = of_int N * 2 powi j" by (simp only: rd_def N_def u)
  have "\<bar>x / ulp x\<bar> \<le> of_int (2 ^ 53)" using scaled_less[OF False] by simp
  then have N: "\<bar>N\<bar> \<le> 2 ^ 53" unfolding N_def by (rule rne_abs_le)
  show ?thesis
  proof (cases "\<bar>N\<bar> < 2 ^ 53")
    case True
    then show ?thesis unfolding r using j by (rule rd_dyadic)
  next
    case False
    with N have "N = 2 ^ 53 \<or> N = - (2 ^ 53)" by linarith
    then have "rd x = of_int 1 * 2 powi (j + 53) \<or> rd x = of_int (- 1) * 2 powi (j + 53)"
      unfolding r by (auto simp: power_int_add)
    moreover have "rd (of_int 1 * 2 powi (j + 53)) = of_int 1 * 2 powi (j + 53)"
      using j by (intro rd_dyadic) auto
    moreover have "rd (of_int (- 1) * 2 powi (j + 53)) = of_int (- 1) * 2 powi (j + 53)"
      using j by (intro rd_dyadic) auto
    ultimately show ?thesis by metis
  qed
qed

lemma rd_mono_pos:
  assumes "0 < x" "x \<le> y"
  shows "rd x \<le> rd y"
proof -
  define Ex where "Ex = max (bexp x) (- 1022)"
  define Ey where "Ey = max (bexp y) (- 1022)"
  have ux: "ulp x = 2 powi (Ex - 52)" and uy: "ulp y = 2 powi (Ey - 52)"
    by (simp_all add: ulp_def Ex_def Ey_def)
  have x0: "x \<noteq> 0" and y0: "y \<noteq> 0" and ypos: "0 < y" using assms by auto
  have le: "Ex \<le> Ey" using bexp_mono_pos[OF assms] by (simp add: Ex_def Ey_def)
  show ?thesis
  proof (cases "Ex = Ey")
    case True
    then have same: "ulp y = ulp x" by (simp add: ux uy)
    have "x / ulp x \<le> y / ulp x" using assms ulp_pos[of x] by (intro divide_right_mono) auto
    then have "rne (x / ulp x) \<le> rne (y / ulp x)" by (rule rne_mono)
    then have "of_int (rne (x / ulp x)) * ulp x \<le> of_int (rne (y / ulp x)) * ulp x"
      using ulp_pos[of x] by (intro mult_right_mono) auto
    then show ?thesis by (simp add: rd_def same)
  next
    case False
    with le have lt: "Ex + 1 \<le> Ey" by simp
    then have ey: "Ey = bexp y" by (auto simp: Ey_def Ex_def)
    have "\<bar>x / ulp x\<bar> \<le> of_int (2 ^ 53)" using scaled_less[OF x0] by simp
    then have "\<bar>rne (x / ulp x)\<bar> \<le> 2 ^ 53" by (rule rne_abs_le)
    then have "rne (x / ulp x) \<le> 2 ^ 53" by linarith
    then have "(of_int (rne (x / ulp x)) :: real) \<le> of_int (2 ^ 53)" by (simp only: of_int_le_iff)
    then have "rd x \<le> of_int (2 ^ 53) * 2 powi (Ex - 52)"
      unfolding rd_def ux by (intro mult_right_mono) auto
    also have "\<dots> = 2 powi (Ex + 1)" by (simp only: pow2_scale) (simp add: add.commute)
    also have "\<dots> \<le> 2 powi Ey" using lt by (intro power_int_increasing) auto
    finally have 1: "rd x \<le> 2 powi Ey" .
    have "2 powi Ey \<le> y" using bexp_bounds[OF y0] ypos by (simp add: ey)
    then have "2 powi Ey / 2 powi (Ey - 52) \<le> y / 2 powi (Ey - 52)"
      by (intro divide_right_mono) auto
    moreover have "2 powi Ey / 2 powi (Ey - 52) = (of_int (2 ^ 52) :: real)"
      by (simp flip: power_int_diff)
    ultimately have "of_int (2 ^ 52) \<le> y / ulp y" by (simp only: uy)
    then have "rne (of_int (2 ^ 52)) \<le> rne (y / ulp y)" by (rule rne_mono)
    then have "2 ^ 52 \<le> rne (y / ulp y)" by (simp only: rne_of_int)
    then have "(of_int (2 ^ 52) :: real) \<le> of_int (rne (y / ulp y))" by (simp only: of_int_le_iff)
    then have "of_int (2 ^ 52) * 2 powi (Ey - 52) \<le> rd y"
      unfolding rd_def uy by (intro mult_right_mono) auto
    moreover have "of_int (2 ^ 52) * 2 powi (Ey - 52) = (2::real) powi Ey"
      by (simp only: pow2_scale) (simp add: add.commute)
    ultimately have 2: "2 powi Ey \<le> rd y" by simp
    show ?thesis using 1 2 by linarith
  qed
qed

lemma rd_0 [simp]: "rd 0 = 0"
  by (simp add: rd_def)

lemma rd_mono_nonneg: "0 \<le> x \<Longrightarrow> x \<le> y \<Longrightarrow> rd x \<le> rd y"
  using rd_mono_pos[of x y] rd_nonneg[of y] by (cases "x = 0") auto

section \<open>Evaluating numbers\<close>

lemma js_round_dyadic:
  assumes m: "\<bar>m\<bar> < 2 ^ 53" and k: "- 1074 \<le> k" "k \<le> 971"
  shows "js_round (of_int m * 2 powi k) = Num (of_int m * 2 powi k)"
proof -
  define x :: real where "x = of_int m * 2 powi k"
  have r: "rd x = x" unfolding x_def using m k(1) by (rule rd_dyadic)
  have "\<bar>x\<bar> = of_int \<bar>m\<bar> * 2 powi k" by (simp add: x_def abs_mult)
  also have "\<dots> \<le> of_int (2 ^ 53 - 1) * 2 powi k"
    using m by (intro mult_right_mono) auto
  also have "\<dots> \<le> of_int (2 ^ 53 - 1) * 2 powi 971"
    using k(2) by (intro mult_left_mono power_int_increasing) auto
  also have "\<dots> < 2 ^ 1024" by simp
  finally have "\<bar>x\<bar> < 2 ^ 1024" .
  then show ?thesis unfolding x_def[symmetric] js_round_def Let_def r by auto
qed

lemma js_round_int:
  assumes "\<bar>n\<bar> < 2 ^ 53"
  shows "js_round (of_int n) = Num (of_int n)"
  using js_round_dyadic[OF assms, of 0] by simp

lemma js_round_1 [simp]: "js_round 1 = Num 1"
  using js_round_int[of 1] by simp

lemma js_round_numeral [simp]:
  "numeral w < (2 ^ 53 :: int) \<Longrightarrow> js_round (numeral w) = Num (numeral w)"
  using js_round_int[of "numeral w"] by simp

lemma js_round_pow2:
  assumes "n \<le> 1023"
  shows "js_round (2 ^ n) = Num (2 ^ n)"
proof (cases "n \<le> 52")
  case True
  then have "(2::int) ^ n < 2 ^ 53" by (intro power_strict_increasing) auto
  then show ?thesis using js_round_int[of "2 ^ n"] by simp
next
  case False
  then have n: "52 \<le> n" by simp
  have "js_round (of_int (2 ^ 52) * 2 powi (int n - 52))
      = Num (of_int (2 ^ 52) * 2 powi (int n - 52))"
    using assms by (intro js_round_dyadic) auto
  moreover have "of_int (2 ^ 52) * 2 powi (int n - 52) = (2::real) ^ n"
  proof -
    have "of_int (2 ^ 52) * 2 powi (int n - 52) = (2::real) powi (int n - 52 + int 52)"
      by (rule pow2_scale)
    also have "int n - 52 + int 52 = int n" by simp
    finally show ?thesis by (simp only: power_int_of_nat)
  qed
  ultimately show ?thesis by (simp only:)
qed

lemma price_1to1: "getPriceFromSqrtPriceX96BigInt (2 ^ 96) d d = Inr (Num 1)"
proof -
  have a: "Number_of_bigint (2 ^ 192) = Num (2 ^ 192)"
    using js_round_pow2[of 192] by (simp add: Number_of_bigint_def)
  have n: "((2::int) ^ 96) ^ nat 2 * 10 ^ nat (d - d) = 2 ^ 192" by simp
  have dn: "push_bit 192 (1::int) = 2 ^ 192" by (simp add: push_bit_eq_mult)
  have q: "js_div (Num (2 ^ 192)) (Num (2 ^ 192)) = Num 1" by (simp add: js_div_def)
  have "getPriceFromSqrtPriceX96BigInt (2 ^ 96) d d
      = Inr (js_div (Number_of_bigint (((2::int) ^ 96) ^ nat 2 * 10 ^ nat (d - d)))
                    (Number_of_bigint (push_bit 192 (1::int))))"
    by (simp add: getPriceFromSqrtPriceX96BigInt_def err_bind_def bigint_pow_def Let_def
        del: power_mult_numeral)
  then show ?thesis by (simp only: n dn a q)
qed

lemma price_throws:
  "d0 < d1 \<Longrightarrow> getPriceFromSqrtPriceX96BigInt s d0 d1 = Inl RangeError"
  by (simp add: getPriceFromSqrtPriceX96BigInt_def err_bind_def bigint_pow_def)

lemma one_minus_zero [simp]: "js_sub (Num 1) (Num 0) = Num 1"
  by (simp add: js_sub_def js_add_def)

lemma js_mul_one:
  assumes "is_double a"
  shows "js_mul a (Num 1) = a"
proof (cases a)
  case (Num x)
  then show ?thesis using assms by (simp add: js_mul_def signed_zero_def)
qed (simp_all add: js_mul_def signed_zero_def signed_inf_def)

lemma applySwapFee_zero: "is_double amount \<Longrightarrow> applySwapFee amount (Num 0) = amount"
  by (simp add: applySwapFee_def js_mul_one)

lemma rd_eval:
  assumes "2 powi e \<le> \<bar>x\<bar>" "\<bar>x\<bar> < 2 powi (e + 1)" "- 1022 \<le> e"
  shows "rd x = of_int (rne (x / 2 powi (e - 52))) * 2 powi (e - 52)"
proof -
  have "bexp x = e" using assms(1,2) by (rule bexp_unique)
  then have "ulp x = 2 powi (e - 52)" using assms(3) by (simp add: ulp_def)
  then show ?thesis by (simp add: rd_def)
qed

lemma rd_near_one: "rd (1 - 1 / 2 ^ 60) = 1"
proof -
  have "rd (1 - 1 / 2 ^ 60) = of_int (rne ((1 - 1 / 2 ^ 60) / 2 powi (- 1 - 52))) * 2 powi (- 1 - 52)"
    by (rule rd_eval) simp_all
  also have "rne ((1 - 1 / 2 ^ 60) / 2 powi (- 1 - 52)) = 2 ^ 53"
    by (simp add: rne_def Let_def)
  finally show ?thesis by simp
qed

lemma fee_not_strict:
  "applySwapFee (Num 1) (Num (1 / 2 ^ 60)) = Num 1 \<and> applySwapFee (Num 1) (Num 0) = Num 1"
proof -
  have "js_round (1 - 1 / 2 ^ 60) = Num 1"
    unfolding js_round_def Let_def rd_near_one by simp
  then have "js_sub (Num 1) (Num (1 / 2 ^ 60)) = Num 1"
    by (simp add: js_sub_def js_add_def)
  then show ?thesis by (simp add: applySwapFee_def js_mul_def)
qed

lemma small_fee_is_double: "is_double (Num (1 / 2 ^ 60))"
proof -
  have "js_round (of_int 1 * 2 powi (- 60)) = Num (of_int 1 * 2 powi (- 60))"
    by (rule js_round_dyadic) simp_all
  then show ?thesis by (simp add: power_int_minus_divide)
qed

section \<open>Properties of one direction\<close>

lemma addr_ne: "toLowerCase ''0xB'' \<noteq> toLowerCase ''0xA''"
  by code_simp

lemma usd_ne: "toLowerCase USDT \<noteq> toLowerCase USDC"
  by code_simp

lemma usdc_lower: "toLowerCase USDC = ''0xb97ef9ef8734c71904d8002f8b6bc66dd9c48a6e''"
  by code_simp

lemma simulateDirection_steps:
  "finalAmount (simulateDirection inp) = step_finalAmount inp \<and>
   profit (simulateDirection inp) = js_sub (step_finalAmount inp) (startAmount inp) \<and>
   minAmountOut (simulateDirection inp)
     = js_mul (startAmount inp) (minAmountOutFactor_or_default inp) \<and>
   (\<forall>f. finalAmount (simulateDirection (inp\<lparr>minAmountOutFactor := f\<rparr>))
          = finalAmount (simulateDirection inp) \<and>
        profit (simulateDirection (inp\<lparr>minAmountOutFactor := f\<rparr>))
          = profit (simulateDirection inp))"
  by (simp add: simulateDirection_def step_finalAmount_def step_afterSwapB_def
      step_afterBridgeA_def step_afterSwapA_def same_address_def Let_def)

lemma nonfinite_mul: "\<not> is_finite a \<Longrightarrow> \<not> is_finite (js_mul a b)"
  by (cases a; cases b) (auto simp: js_mul_def signed_inf_def)

lemma nonfinite_div: "\<not> is_finite a \<Longrightarrow> \<not> is_finite (js_div a b)"
  by (cases a; cases b) (auto simp: js_div_def signed_inf_def)

lemma nonfinite_sub: "\<not> is_finite a \<Longrightarrow> \<not> is_finite (js_sub a b)"
  by (cases a; cases b) (auto simp: js_sub_def js_add_def)

lemma nonfinite_fee: "\<not> is_finite a \<Longrightarrow> \<not> is_finite (applySwapFee a f)"
  by (simp add: applySwapFee_def nonfinite_mul)

lemma div_zero_nonfinite: "is_zero b \<Longrightarrow> \<not> is_finite (js_div a b)"
  by (cases a; cases b) (auto simp: js_div_def signed_inf_def)

lemma zero_price_nonfinite:
  assumes "(\<not> same_address (token0 (poolA inp)) (tokenIn inp) \<and> is_zero (price (poolA inp)))
         \<or> (same_address (token0 (poolB inp)) (tokenOut inp) \<and> is_zero (price (poolB inp)))"
  shows "\<not> is_finite (finalAmount (simulateDirection inp)) \<and>
         \<not> is_finite (profit (simulateDirection inp))"
proof -
  have b: "\<not> is_finite (step_afterSwapB inp)"
    using assms
  proof
    assume a: "\<not> same_address (token0 (poolA inp)) (tokenIn inp) \<and> is_zero (price (poolA inp))"
    then have "\<not> is_finite (step_afterSwapA inp)"
      by (simp add: step_afterSwapA_def nonfinite_fee div_zero_nonfinite)
    then have "\<not> is_finite (step_afterBridgeA inp)"
      by (simp add: step_afterBridgeA_def nonfinite_sub)
    then show ?thesis
      by (simp add: step_afterSwapB_def nonfinite_fee nonfinite_div nonfinite_mul)
  next
    assume "same_address (token0 (poolB inp)) (tokenOut inp) \<and> is_zero (price (poolB inp))"
    then show ?thesis
      by (simp add: step_afterSwapB_def nonfinite_fee div_zero_nonfinite)
  qed
  then have "\<not> is_finite (step_finalAmount inp)"
    by (simp add: step_finalAmount_def nonfinite_sub)
  then show ?thesis
    using simulateDirection_steps[of inp] by (simp add: nonfinite_sub)
qed

lemma zero_price_run:
  "finalAmount (simulateDirection (free_round_trip (Num 10) (Num 0) (Num 1) ''0xB'' ''0xB'')) = PosInf \<and>
   profit (simulateDirection (free_round_trip (Num 10) (Num 0) (Num 1) ''0xB'' ''0xB'')) = PosInf"
  by (simp add: simulateDirection_def free_round_trip_def Let_def addr_ne applySwapFee_def
      js_div_def js_mul_def js_sub_def js_add_def signed_inf_def)

lemma same_first_run:
  "js_mul (Num 2) (Num (1 / 2)) = Num 1 \<and>
   profit (simulateDirection (free_round_trip (Num 1) (Num 2) (Num (1 / 2)) ''0xA'' ''0xA'')) = Num 3"
  by (simp add: simulateDirection_def free_round_trip_def Let_def applySwapFee_def
      js_div_def js_mul_def js_sub_def js_add_def)

section \<open>Properties of runs\<close>

lemma fst_io_bind:
  "fst (io_bind m f) = (case snd m of Inl e \<Rightarrow> fst m | Inr v \<Rightarrow> fst m @ fst (f v))"
  by (cases m) (auto simp: io_bind_def split: sum.splits prod.splits)

lemma snd_io_bind:
  "snd (io_bind m f) = (case snd m of Inl e \<Rightarrow> Inl e | Inr v \<Rightarrow> snd (f v))"
  by (cases m) (auto simp: io_bind_def split: sum.splits prod.splits)

lemma io_simple_trace [simp]:
  "fst (io_of r) = []" "snd (io_of r) = r"
  "fst (io_return v) = []" "snd (io_return v) = Inr v"
  "fst (io_throw e) = []" "snd (io_throw e) = Inl e"
  "fst (io_emit evs) = evs" "snd (io_emit evs) = Inr ()"
  by (simp_all add: io_of_def io_return_def io_throw_def io_emit_def)

lemma retry_loop_trace_all:
  "(\<And>k. list_all P (fst (fn k))) \<Longrightarrow> P Attempt \<Longrightarrow> (\<And>n e. P (Console (RetryFailed n e)))
   \<Longrightarrow> (\<And>n. P (Sleep n))
   \<Longrightarrow> list_all P (fst (retry_loop fn maxRetries baseDelay attempt))"
proof (induction fn maxRetries baseDelay attempt rule: retry_loop.induct)
  case (1 fn maxRetries baseDelay attempt)
  obtain t r where f: "fn attempt = (t, r)" by (cases "fn attempt")
  have t: "list_all P t" using "1.prems"(1)[of attempt] f by simp
  show ?case
  proof (cases r)
    case (Inr v)
    then show ?thesis using f t "1.prems"(2) by (subst retry_loop.simps) simp
  next
    case (Inl err)
    show ?thesis
    proof (cases "attempt + 1 > maxRetries")
      case True
      then show ?thesis using f t Inl "1.prems"(2,3) by (subst retry_loop.simps) simp
    next
      case False
      obtain t' r' where rec: "retry_loop fn maxRetries baseDelay (attempt + 1) = (t', r')"
        by (cases "retry_loop fn maxRetries baseDelay (attempt + 1)")
      have "list_all P (fst (retry_loop fn maxRetries baseDelay (attempt + 1)))"
        using "1.IH"[OF f[symmetric] Inl False] "1.prems" by blast
      then have t': "list_all P t'" using rec by simp
      have "retry_loop fn maxRetries baseDelay attempt =
              (Attempt # t @ [Console (RetryFailed (attempt + 1) err),
                              Sleep (baseDelay * 2 ^ (attempt + 1 - 1))] @ t', r')"
        using f Inl False rec by (subst retry_loop.simps) simp
      then show ?thesis using t t' "1.prems"(2,3,4) by simp
    qed
  qed
qed


lemma list_all_io_bind:
  "list_all P (fst (io_bind m f)) =
     (list_all P (fst m) \<and> (\<forall>v. snd m = Inr v \<longrightarrow> list_all P (fst (f v))))"
  by (auto simp: fst_io_bind split: sum.splits)

lemma executions_append: "executions (a @ b) = executions a @ executions b"
  by (induction a rule: executions.induct) simp_all

lemma no_executions: "list_all (\<lambda>e. \<forall>d. e \<noteq> Execute d) t \<Longrightarrow> executions t = []"
  by (induction t rule: executions.induct) simp_all

lemma executions_io_bind:
  "executions (fst (io_bind m f)) =
     executions (fst m) @ (case snd m of Inl e \<Rightarrow> [] | Inr v \<Rightarrow> executions (fst (f v)))"
  by (simp add: fst_io_bind executions_append split: sum.splits)

lemma mockSwap_trace_all:
  assumes "P (Enter MockSwap)" "\<And>l. P (Console l)" "\<And>l. P (LogFile l)"
  shows "list_all P (fst (mockSwap rt dex chain fromToken toToken amountIn swapPrice fee slip))"
  using assms by (simp add: mockSwap_def Let_def list_all_io_bind)

lemma mockCcipBridge_trace_all:
  assumes "P (Enter MockCcipBridge)" "\<And>l. P (Console l)" "\<And>l. P (LogFile l)" "\<And>n. P (Sleep n)"
  shows "list_all P (fst (mockCcipBridge fromChain toChain amount token cost delay))"
  using assms by (simp add: mockCcipBridge_def Let_def list_all_io_bind)

lemma mockStargateBridge_trace_all:
  assumes "P (Enter MockStargateBridge)" "\<And>l. P (Console l)" "\<And>l. P (LogFile l)"
    "\<And>n. P (Sleep n)"
  shows "list_all P (fst (mockStargateBridge fromChain toChain amount token cost delay))"
  using assms by (simp add: mockStargateBridge_def Let_def list_all_io_bind)

lemma retryAsync_trace_all:
  assumes "\<And>k. list_all P (fst (fn k))" "P Attempt" "\<And>n e. P (Console (RetryFailed n e))"
    "\<And>n. P (Sleep n)"
  shows "list_all P (fst (retryAsync fn maxRetries baseDelay))"
  unfolding retryAsync_def using assms by (rule retry_loop_trace_all)

lemma realSwap_trace_all:
  assumes "P (Enter RealSwap)" "P Attempt" "\<And>l. P (Console l)" "\<And>n. P (Sleep n)"
  shows "list_all P (fst (realSwap router fromToken toToken amountIn minOut slip chain wallet))"
  using assms by (simp add: realSwap_def list_all_io_bind retryAsync_trace_all)

lemma realCcipBridge_trace_all:
  assumes "P (Enter RealCcipBridge)" "P Attempt" "\<And>l. P (Console l)" "\<And>n. P (Sleep n)"
  shows "list_all P (fst (realCcipBridge fromChain toChain amount token wallet))"
  using assms by (simp add: realCcipBridge_def list_all_io_bind retryAsync_trace_all)

lemma realStargateBridge_trace_all:
  assumes "P (Enter RealStargateBridge)" "P Attempt" "\<And>l. P (Console l)" "\<And>n. P (Sleep n)"
  shows "list_all P (fst (realStargateBridge fromChain toChain amount token wallet))"
  using assms by (simp add: realStargateBridge_def list_all_io_bind retryAsync_trace_all)

lemma handlers_no_execute:
  "executions (fst (mockSwap rt dex chain fromToken toToken amountIn swapPrice fee slip)) = []"
  "executions (fst (mockCcipBridge fromChain toChain amount token cost delay)) = []"
  "executions (fst (mockStargateBridge fromChain toChain amount token cost delay)) = []"
  "executions (fst (realSwap router fromToken toToken amountInBN minOut slippage chain wallet)) = []"
  "executions (fst (realCcipBridge fromChain toChain amountBN token wallet)) = []"
  "executions (fst (realStargateBridge fromChain toChain amountBN token wallet)) = []"
  by (intro no_executions mockSwap_trace_all mockCcipBridge_trace_all
      mockStargateBridge_trace_all realSwap_trace_all realCcipBridge_trace_all
      realStargateBridge_trace_all; simp)+

lemma simulateExecution_executions:
  "executions (fst (simulateExecution cfg rt dir pharaoh shadow)) = [dir]"
  by (cases dir; cases "LIVE_MODE cfg")
    (simp_all add: simulateExecution_def Let_def executions_io_bind handlers_no_execute
      split: sum.splits)

lemma simulated_no_live_event:
  assumes "\<not> LIVE_MODE cfg"
  shows "list_all (\<lambda>e. \<not> live_event e) (fst (simulateExecution cfg rt dir pharaoh shadow))"
  using assms
  by (cases dir)
    (simp_all add: simulateExecution_def Let_def list_all_io_bind mockSwap_trace_all
      mockCcipBridge_trace_all mockStargateBridge_trace_all)

lemma bn_failure: "bn rt x d = Inl e \<Longrightarrow> mock_failure rt e"
  by (auto simp: bn_def mock_failure_def)

lemma bigint_div_failure: "bigint_div a b = Inl e \<Longrightarrow> e = RangeError"
  by (auto simp: bigint_div_def split: if_splits)

lemma bnMul_failure: "bnMul rt a b d = Inl e \<Longrightarrow> mock_failure rt e"
  by (auto simp: bnMul_def err_bind_def mock_failure_def dest: bigint_div_failure
      split: sum.splits)

lemma bnDiv_failure: "bnDiv rt a b d = Inl e \<Longrightarrow> mock_failure rt e"
  by (auto simp: bnDiv_def err_bind_def mock_failure_def dest: bigint_div_failure
      split: sum.splits)

lemma io_bind_failure:
  assumes "snd (io_bind m f) = Inl e"
    and "snd m = Inl e \<Longrightarrow> Q" and "\<And>v. snd m = Inr v \<Longrightarrow> snd (f v) = Inl e \<Longrightarrow> Q"
  shows Q
  using assms by (auto simp: snd_io_bind split: sum.splits)

lemma mockSwap_failure:
  assumes "snd (mockSwap rt dex chain fromToken toToken amountIn swapPrice fee slip) = Inl e"
  shows "mock_failure rt e"
  using assms unfolding mockSwap_def Let_def
  by (auto elim!: io_bind_failure dest: bn_failure bnMul_failure bnDiv_failure
      split: if_splits)

lemma mock_bridges_succeed:
  "\<exists>r. snd (mockCcipBridge fromChain toChain amount token cost delay) = Inr r"
  "\<exists>r. snd (mockStargateBridge fromChain toChain amount token cost delay) = Inr r"
  by (simp_all add: mockCcipBridge_def mockStargateBridge_def Let_def snd_io_bind)

lemma simulated_failure:
  assumes "\<not> LIVE_MODE cfg"
    and "snd (simulateExecution cfg rt dir pharaoh shadow) = Inl e"
  shows "mock_failure rt e"
proof -
  have b1: "\<And>a b c d x y. snd (mockCcipBridge a b c d x y) \<noteq> Inl e"
    using mock_bridges_succeed(1) by (metis sum.distinct(1))
  have b2: "\<And>a b c d x y. snd (mockStargateBridge a b c d x y) \<noteq> Inl e"
    using mock_bridges_succeed(2) by (metis sum.distinct(1))
  show ?thesis
    using assms unfolding simulateExecution_def Let_def
    by (cases dir) (auto elim!: io_bind_failure dest: mockSwap_failure simp: b1 b2)
qed

lemma mockSwap_same_token:
  assumes same: "toLowerCase fromToken = toLowerCase toToken"
    and a: "bn rt amountIn 6 = Inr amountInBN"
    and p: "bn rt swapPrice 6 = Inr priceBN"
    and f: "bn rt (js_sub (Num 1) fee) 6 = Inr feeBN"
    and s: "bn rt (case slip of None \<Rightarrow> js_lit (5 / 10000) | Some x \<Rightarrow> x) 6
              = Inr slippageFractionBN"
    and u: "parseUnits rt ''1'' 6 = Inr 1000000"
  shows "snd (mockSwap rt dex chain fromToken toToken amountIn swapPrice fee slip) =
     Inr \<lparr>amountOut =
            bnToNum rt
              (fixed6_mul amountInBN feeBN
               - fixed6_mul (fixed6_mul amountInBN feeBN) slippageFractionBN) 6,
          txHash = randomTxHash rt\<rparr>"
  using assms
  by (simp add: mockSwap_def Let_def snd_io_bind bnMul_def err_bind_def bigint_div_def
      fixed6_mul_def)

section \<open>Further properties\<close>

lemma js_round_neg_numeral [simp]:
  "numeral w < (2 ^ 53 :: int) \<Longrightarrow> js_round (- numeral w) = Num (- numeral w)"
  using js_round_int[of "- numeral w"] by simp



lemma usdc_lower_fixed:
  "toLowerCase ''0xb97ef9ef8734c71904d8002f8b6bc66dd9c48a6e''
     = ''0xb97ef9ef8734c71904d8002f8b6bc66dd9c48a6e''"
  by code_simp

lemma executions_caught:
  "executions (fst (case m of (t, Inl err) \<Rightarrow> (t @ [Console (CycleError err)], Inr ())
                            | (t, Inr u) \<Rightarrow> (t, Inr u))) = executions (fst m)"
  by (cases m; cases "snd m") (auto simp: executions_append)

lemma trace_caught:
  "set (fst m) \<subseteq> set (fst (case m of (t, Inl err) \<Rightarrow> (t @ [Console (CycleError err)], Inr ())
                                   | (t, Inr u) \<Rightarrow> (t, Inr u)))"
  by (cases m; cases "snd m") auto

lemma cycle_executions:
  "executions (fst (simulateArbitrage cfg rt (Inr pharaoh) (Inr shadow))) =
     (if js_gt (profit (simulateDirection (direction1 cfg pharaoh shadow))) (PROFIT_THRESHOLD cfg)
      then [USDC_first]
      else if js_gt (profit (simulateDirection (direction2 cfg pharaoh shadow)))
                (PROFIT_THRESHOLD cfg)
      then [USDT_first] else [])"
  unfolding simulateArbitrage_def executions_caught
  by (simp add: executions_io_bind Let_def report_def simulateExecution_executions)

lemma cycle_executions_failed_quote:
  "executions (fst (simulateArbitrage cfg rt (Inl e) shadowQuote)) = []"
  "executions (fst (simulateArbitrage cfg rt (Inr pharaoh) (Inl e))) = []"
  unfolding simulateArbitrage_def executions_caught
  by (simp_all add: executions_io_bind)

lemma cycle_reports:
  "report (simulateDirection (direction1 cfg pharaoh shadow))
     \<in> set (fst (simulateArbitrage cfg rt (Inr pharaoh) (Inr shadow)))"
  "report (simulateDirection (direction2 cfg pharaoh shadow))
     \<in> set (fst (simulateArbitrage cfg rt (Inr pharaoh) (Inr shadow)))"
  unfolding simulateArbitrage_def
  by (rule subsetD[OF trace_caught], simp add: fst_io_bind Let_def split: sum.splits)+

lemma cycle_no_opportunity:
  assumes "\<not> js_gt (profit (simulateDirection (direction1 cfg pharaoh shadow))) (PROFIT_THRESHOLD cfg)"
    and "\<not> js_gt (profit (simulateDirection (direction2 cfg pharaoh shadow))) (PROFIT_THRESHOLD cfg)"
  shows "Console NoOpportunity \<in> set (fst (simulateArbitrage cfg rt (Inr pharaoh) (Inr shadow)))"
  unfolding simulateArbitrage_def
  by (rule subsetD[OF trace_caught]) (simp add: fst_io_bind Let_def assms)

lemma other_token:
  "toLowerCase ''0xA'' \<noteq> toLowerCase USDC" "toLowerCase ''0xA'' \<noteq> toLowerCase USDT"
  "toLowerCase USDC \<noteq> toLowerCase USDT"
  by code_simp+

lemmas direction_eval =
  simulateDirection_def direction1_def direction2_def sample_config_def Let_def
  applySwapFee_def js_div_def js_mul_def js_sub_def js_add_def js_gt_def js_lt_def
  other_token usd_ne signed_zero_def

lemma both_profitable:
  "profit (simulateDirection (direction1 (sample_config\<lparr>FEES_BRIDGE_USDT := Num 1\<rparr>)
      \<lparr>token0 = ''0xA'', token1 = ''0xB'', price = Num (1 / 2)\<rparr>
      \<lparr>token0 = ''0xA'', token1 = ''0xB'', price = Num 2\<rparr>)) = Num 28"
  "profit (simulateDirection (direction2 (sample_config\<lparr>FEES_BRIDGE_USDT := Num 1\<rparr>)
      \<lparr>token0 = ''0xA'', token1 = ''0xB'', price = Num (1 / 2)\<rparr>
      \<lparr>token0 = ''0xA'', token1 = ''0xB'', price = Num 2\<rparr>)) = Num 29"
  by (simp_all add: direction_eval)

lemma second_profitable:
  "profit (simulateDirection (direction1 sample_config
      \<lparr>token0 = USDC, token1 = USDT, price = Num (1 / 2)\<rparr>
      \<lparr>token0 = USDT, token1 = USDC, price = Num 1\<rparr>)) = Num (- 5)"
  "profit (simulateDirection (direction2 sample_config
      \<lparr>token0 = USDC, token1 = USDT, price = Num (1 / 2)\<rparr>
      \<lparr>token0 = USDT, token1 = USDC, price = Num 1\<rparr>)) = Num 10"
  by (simp_all add: direction_eval)

lemma none_profitable:
  "profit (simulateDirection (direction1 sample_config
      \<lparr>token0 = USDC, token1 = USDT, price = Num 1\<rparr>
      \<lparr>token0 = USDT, token1 = USDC, price = Num 1\<rparr>)) = Num 0"
  "profit (simulateDirection (direction2 sample_config
      \<lparr>token0 = USDC, token1 = USDT, price = Num 1\<rparr>
      \<lparr>token0 = USDT, token1 = USDC, price = Num 1\<rparr>)) = Num 0"
  by (simp_all add: direction_eval)

lemma zero_price_simulated_run:
  "\<not> LIVE_MODE sample_config \<and>
   snd (simulateExecution sample_config sample_runtime USDT_first
          \<lparr>token0 = USDC, token1 = USDT, price = Num 0\<rparr>
          \<lparr>token0 = USDC, token1 = USDT, price = Num 1\<rparr>) = Inl RangeError"
  by (simp add: simulateExecution_def sample_config_def Let_def snd_io_bind mockSwap_def
      bn_def bnDiv_def bnMul_def err_bind_def bigint_div_def sample_runtime_def usd_ne)

section \<open>Rounding errors along a round trip\<close>

lemma js_round_pos:
  assumes "0 < x" "rd x < 2 ^ 1024"
  shows "js_round x = Num (rd x)"
proof -
  have "0 \<le> rd x" using assms(1) by (intro rd_nonneg) simp
  then show ?thesis using assms by (simp add: js_round_def Let_def)
qed

lemma rd_1 [simp]: "rd 1 = 1"
  using rd_dyadic[of 1 0] by simp

lemma is_double_posD:
  assumes "is_double (Num a)" "0 < a"
  shows "rd a = a" "a < 2 ^ 1024"
  using assms by (auto simp: js_round_def Let_def split: if_splits)

lemma one_minus_fee:
  assumes "0 \<le> f" "f < 1"
  shows "js_sub (Num 1) (Num f) = Num (rd (1 - f))" "0 \<le> rd (1 - f)" "rd (1 - f) \<le> 1"
proof -
  have le: "rd (1 - f) \<le> rd 1" using assms by (intro rd_mono_nonneg) auto
  then show b: "rd (1 - f) \<le> 1" by simp
  show "0 \<le> rd (1 - f)" using assms by (intro rd_nonneg) simp
  have r: "js_round (1 - f) = Num (rd (1 - f))"
    using assms b by (intro js_round_pos) auto
  show "js_sub (Num 1) (Num f) = Num (rd (1 - f))"
    using assms r by (auto simp: js_sub_def js_add_def)
qed

lemma mul_fraction:
  assumes a: "is_double (Num a)" "0 < a" and g: "0 \<le> g" "g \<le> 1"
  shows "js_mul (Num a) (Num g) = Num (rd (a * g))"
proof (cases "g = 0")
  case True
  then show ?thesis using a by (simp add: js_mul_def signed_zero_def)
next
  case False
  then have pos: "0 < a * g" using a g by simp
  have "rd (a * g) \<le> rd a"
    using a g pos by (intro rd_mono_nonneg) (auto simp: mult_left_le)
  then have "rd (a * g) < 2 ^ 1024" using is_double_posD[OF a] by simp
  then have "js_round (a * g) = Num (rd (a * g))" using pos by (intro js_round_pos)
  then show ?thesis using a False by (simp add: js_mul_def)
qed

lemma fee_monotone:
  assumes a: "is_double (Num a)" "0 < a" and f: "0 \<le> f1" "f1 \<le> f2" "f2 < 1"
  shows "js_le (applySwapFee (Num a) (Num f2)) (applySwapFee (Num a) (Num f1))"
proof -
  define g1 where "g1 = rd (1 - f1)"
  define g2 where "g2 = rd (1 - f2)"
  have s1: "js_sub (Num 1) (Num f1) = Num g1" and b1: "0 \<le> g1" "g1 \<le> 1"
    using one_minus_fee[of f1] f unfolding g1_def by auto
  have s2: "js_sub (Num 1) (Num f2) = Num g2" and b2: "0 \<le> g2" "g2 \<le> 1"
    using one_minus_fee[of f2] f unfolding g2_def by auto
  have g: "g2 \<le> g1" unfolding g1_def g2_def using f by (intro rd_mono_nonneg) auto
  have m1: "applySwapFee (Num a) (Num f1) = Num (rd (a * g1))"
    unfolding applySwapFee_def s1 using a b1 by (rule mul_fraction)
  have m2: "applySwapFee (Num a) (Num f2) = Num (rd (a * g2))"
    unfolding applySwapFee_def s2 using a b2 by (rule mul_fraction)
  have "rd (a * g2) \<le> rd (a * g1)"
    using a g b2 by (intro rd_mono_nonneg mult_left_mono mult_nonneg_nonneg) auto
  then show ?thesis unfolding m1 m2 by (simp add: js_le_def js_lt_def)
qed

text \<open>Relative error of rounding in the normal range.\<close>

lemma rd_rel_err:
  assumes "1 / 2 ^ 1022 \<le> x"
  shows "\<bar>rd x - x\<bar> \<le> x / 2 ^ 53"
proof -
  have xpos: "0 < x" using assms by (smt (verit) divide_pos_pos zero_less_power)
  then have x0: "x \<noteq> 0" by simp
  have "(2::real) powi (- 1022) \<le> \<bar>x\<bar>" using assms xpos by (simp add: power_int_minus_divide)
  also have "\<dots> < 2 powi (bexp x + 1)" using bexp_bounds[OF x0] by simp
  finally have "- 1022 < bexp x + 1" by (rule pow2_less_D)
  then have e: "max (bexp x) (- 1022) = bexp x" by simp
  have "ulp x / 2 = 2 powi (bexp x) / 2 ^ 53"
    by (simp add: ulp_def e power_int_diff)
  also have "\<dots> \<le> x / 2 ^ 53"
    using bexp_bounds[OF x0] xpos by (intro divide_right_mono) auto
  finally show ?thesis using rd_abs_err[of x] by linarith
qed

lemma rd_normal:
  assumes "1 / 2 ^ 1022 \<le> x"
  shows "x * (1 - 1 / 2 ^ 53) \<le> rd x" "rd x \<le> x * (1 + 1 / 2 ^ 53)"
proof -
  define d where "d = x / 2 ^ 53"
  have e: "\<bar>rd x - x\<bar> \<le> d" unfolding d_def using assms by (rule rd_rel_err)
  have 1: "x * (1 - 1 / 2 ^ 53) = x - d" and 2: "x * (1 + 1 / 2 ^ 53) = x + d"
    unfolding d_def by (simp_all only: right_diff_distrib distrib_left mult_1_right times_divide_eq_right)
  show "x * (1 - 1 / 2 ^ 53) \<le> rd x" unfolding 1 using e by linarith
  show "rd x \<le> x * (1 + 1 / 2 ^ 53)" unfolding 2 using e by linarith
qed

lemma round_trip_bound:
  fixes u s k b :: real
  assumes u: "0 < u" "u \<le> 1 / 8" and s: "0 < s" and k: "1 - u \<le> k" "k \<le> 1 + 2 * u"
    and b: "s * k * (1 - u) * (1 - u) \<le> b" "b \<le> s * k * (1 + u) * (1 + u)"
  shows "\<bar>b - s\<bar> \<le> 5 * u * s"
proof -
  have kpos: "0 < k" using u k by linarith
  have "s * k * (1 + u) * (1 + u) \<le> s * (1 + 2 * u) * (1 + u) * (1 + u)"
    using u s k by (intro mult_right_mono mult_left_mono) auto
  also have "\<dots> \<le> s * (1 + 5 * u)"
  proof -
    have "(1 + 2 * u) * (1 + u) * (1 + u) = 1 + 4 * u + u * (5 * u + 2 * u * u)"
      by (simp add: algebra_simps)
    moreover have "u * (5 * u + 2 * u * u) \<le> u * 1"
    proof (intro mult_left_mono)
      have "u * u \<le> 1 / 8 * (1 / 8)" using u by (intro mult_mono) auto
      then show "5 * u + 2 * u * u \<le> 1" using u by simp
    qed (use u in auto)
    ultimately have "(1 + 2 * u) * (1 + u) * (1 + u) \<le> 1 + 5 * u" by simp
    then have "s * ((1 + 2 * u) * (1 + u) * (1 + u)) \<le> s * (1 + 5 * u)"
      using s by (intro mult_left_mono) auto
    then show ?thesis by (simp add: mult.assoc)
  qed
  finally have up: "b \<le> s * (1 + 5 * u)" using b(2) by linarith
  have "s * (1 - 5 * u) \<le> s * ((1 - u) * (1 - u) * (1 - u))"
  proof (intro mult_left_mono)
    have "(1 - u) * (1 - u) * (1 - u) = 1 - 3 * u + u * u * (3 - u)"
      by (simp add: algebra_simps)
    moreover have "0 \<le> u * u * (3 - u)" using u by (intro mult_nonneg_nonneg) auto
    ultimately show "1 - 5 * u \<le> (1 - u) * (1 - u) * (1 - u)" using u by linarith
  qed (use s in auto)
  also have "\<dots> = s * (1 - u) * (1 - u) * (1 - u)" by (simp add: mult.assoc)
  also have "\<dots> \<le> s * k * (1 - u) * (1 - u)"
    using u s k by (intro mult_right_mono mult_left_mono) auto
  finally have lo: "s * (1 - 5 * u) \<le> b" using b(1) by linarith
  show ?thesis using up lo by (simp add: abs_le_iff algebra_simps)
qed

lemma js_round_is_double:
  assumes "js_round x = Num y"
  shows "is_double (Num y)"
proof -
  have y: "y = rd x" and b: "\<not> 2 ^ 1024 \<le> y" "\<not> y \<le> - (2 ^ 1024)"
    using assms by (auto simp: js_round_def Let_def split: if_splits)
  have "rd y = y" unfolding y by (rule rd_idem)
  then show ?thesis using b by (simp add: js_round_def Let_def)
qed

lemma leg_identity:
  assumes "is_double (Num a)" "a \<noteq> 0"
  shows "js_sub (applySwapFee (Num a) (Num 0)) (Num 0) = Num a"
proof -
  have "applySwapFee (Num a) (Num 0) = Num a" using assms(1) by (rule applySwapFee_zero)
  moreover have "js_sub (Num a) (Num 0) = Num a"
    using assms by (simp add: js_sub_def js_add_def)
  ultimately show ?thesis by simp
qed

lemma leg_round:
  assumes "1 / 2 ^ 1022 \<le> x" "x \<le> 2 ^ 1001"
  shows "js_round x = Num (rd x)" "0 < rd x" "is_double (Num (rd x))"
proof -
  have xpos: "0 < x" using assms(1) by (smt (verit) divide_pos_pos zero_less_power)
  have "x * (1 + 1 / 2 ^ 53) \<le> 2 ^ 1001 * 2"
    using assms(2) xpos by (intro mult_mono) auto
  then have hi: "rd x < 2 ^ 1024" using rd_normal(2)[OF assms(1)] by simp
  have "0 < x * (1 - 1 / 2 ^ 53)" using xpos by (intro mult_pos_pos) auto
  then show pos: "0 < rd x" using rd_normal(1)[OF assms(1)] by linarith
  show r: "js_round x = Num (rd x)" using xpos hi by (rule js_round_pos)
  show "is_double (Num (rd x))" using r by (rule js_round_is_double)
qed

lemma tiny_less_one: "(1::real) / 2 ^ 1022 < 1"
  by simp

lemma rd_tiny: "rd (1 / 2 ^ 1022) = 1 / 2 ^ 1022"
proof -
  have "rd (of_int 1 * 2 powi (- 1022)) = of_int 1 * 2 powi (- 1022)"
    by (rule rd_dyadic) simp_all
  moreover have "of_int 1 * 2 powi (- 1022) = (1::real) / 2 ^ 1022"
    by (simp add: power_int_minus_divide)
  ultimately show ?thesis by (simp only:)
qed

lemma product_normal:
  assumes "rd c = 1" "0 < c"
  shows "1 / 2 ^ 1022 \<le> c"
proof (rule ccontr)
  assume "\<not> 1 / 2 ^ 1022 \<le> c"
  then have lt: "c \<le> 1 / 2 ^ 1022" by simp
  have "rd c \<le> rd (1 / 2 ^ 1022)" using assms(2) lt by (intro rd_mono_nonneg) auto
  then have "1 \<le> (1::real) / 2 ^ 1022" unfolding rd_tiny assms(1) .
  then show False using tiny_less_one by linarith
qed

lemma product_near_one:
  assumes "rd c = 1" "0 < c"
  shows "1 - 1 / 2 ^ 53 \<le> c" "c \<le> 1 + 2 * (1 / 2 ^ 53)" "1 - 1 / 2 ^ 53 \<le> 1 / c"
    "1 / c \<le> 1 + 2 * (1 / 2 ^ 53)"
proof -
  have n: "1 / 2 ^ 1022 \<le> c" using assms by (rule product_normal)
  define u :: real where "u = 1 / 2 ^ 53"
  have u: "0 < u" "u \<le> 1 / 8" by (simp_all add: u_def)
  have lo: "c * (1 - u) \<le> 1" and hi: "1 \<le> c * (1 + u)"
    using rd_normal[OF n] assms(1) by (simp_all only: u_def)
  have "(1 - u) * (1 + u) = 1 - u * u" by (simp add: algebra_simps)
  then have "(1 - u) * (1 + u) \<le> 1" using u by simp
  then have "(1 - u) * (1 + u) \<le> c * (1 + u)" using hi by linarith
  then have 1: "1 - u \<le> c" using u by (simp add: mult_le_cancel_right)
  have "(1 + 2 * u) * (1 - u) = 1 + u * (1 - 2 * u)" by (simp add: algebra_simps)
  moreover have "0 \<le> u * (1 - 2 * u)" using u by (intro mult_nonneg_nonneg) auto
  ultimately have "1 \<le> (1 + 2 * u) * (1 - u)" by simp
  then have "c * (1 - u) \<le> (1 + 2 * u) * (1 - u)" using lo by linarith
  then have 2: "c \<le> 1 + 2 * u" using u by (simp add: mult_le_cancel_right)
  have 3: "1 - u \<le> 1 / c" using lo assms(2) by (simp add: field_simps)
  have "1 / c \<le> 1 + u" using hi assms(2) by (simp add: field_simps)
  then have 4: "1 / c \<le> 1 + 2 * u" using u by simp
  show "1 - 1 / 2 ^ 53 \<le> c" "c \<le> 1 + 2 * (1 / 2 ^ 53)" "1 - 1 / 2 ^ 53 \<le> 1 / c"
    "1 / c \<le> 1 + 2 * (1 / 2 ^ 53)"
    using 1 2 3 4 by (simp_all only: u_def)
qed

lemma ulp_le:
  assumes "z \<noteq> 0"
  shows "ulp z \<le> \<bar>z\<bar> / 2 ^ 52 + 1 / 2 ^ 1074"
proof (cases "- 1022 \<le> bexp z")
  case True
  then have "ulp z = 2 powi (bexp z) / 2 ^ 52" by (simp add: ulp_def power_int_diff max_def)
  also have "\<dots> \<le> \<bar>z\<bar> / 2 ^ 52"
    using bexp_bounds[OF assms] by (intro divide_right_mono) auto
  finally show ?thesis by (smt (verit) divide_pos_pos zero_less_power)
next
  case False
  then have "ulp z = 2 powi (- 1074)" by (simp add: ulp_def max_def)
  also have "\<dots> = 1 / 2 ^ 1074" by (simp only: power_int_minus_divide power_int_numeral)
  finally show ?thesis by (smt (verit) abs_ge_zero divide_nonneg_pos zero_less_power)
qed

lemma tiny_le_unit: "(1::real) / 2 ^ 1074 / 2 \<le> 1 / 2 ^ 1000 / 2 ^ 53"
  by simp

lemma huge_less: "(2::real) ^ 1000 / 2 ^ 50 < 2 ^ 1024"
  by simp

lemma small_round:
  assumes z: "\<bar>z\<bar> \<le> 5 * (1 / 2 ^ 53) * s" and s: "1 / 2 ^ 1000 \<le> s" "s \<le> 2 ^ 1000"
  shows "is_finite (js_round z) \<and> \<bar>val (js_round z)\<bar> \<le> s / 2 ^ 50"
proof -
  define t where "t = s / 2 ^ 53"
  have spos: "0 < s" using s(1) by (smt (verit) divide_pos_pos zero_less_power)
  have tpos: "0 < t" using spos by (simp add: t_def)
  have zt: "\<bar>z\<bar> \<le> 5 * t" using z by (simp add: t_def)
  have tiny: "1 / 2 ^ 1074 / 2 \<le> t"
  proof -
    have "1 / 2 ^ 1000 / 2 ^ 53 \<le> s / 2 ^ 53" using s(1) by (intro divide_right_mono) auto
    then show ?thesis using tiny_le_unit unfolding t_def by linarith
  qed
  have r: "\<bar>rd z\<bar> \<le> 8 * t"
  proof (cases "z = 0")
    case True
    then show ?thesis using tpos by simp
  next
    case False
    have "\<bar>z\<bar> / 2 ^ 52 / 2 \<le> 5 * t / 2 ^ 52 / 2" using zt by (intro divide_right_mono) auto
    also have "\<dots> \<le> t" using tpos by simp
    finally have a: "\<bar>z\<bar> / 2 ^ 52 / 2 \<le> t" .
    have "ulp z / 2 \<le> (\<bar>z\<bar> / 2 ^ 52 + 1 / 2 ^ 1074) / 2"
      using ulp_le[OF False] by (intro divide_right_mono) auto
    also have "\<dots> = \<bar>z\<bar> / 2 ^ 52 / 2 + 1 / 2 ^ 1074 / 2" by (simp only: add_divide_distrib)
    also have "\<dots> \<le> t + t" using a tiny by (rule add_mono)
    finally have "\<bar>rd z - z\<bar> \<le> 2 * t" using rd_abs_err[of z] by linarith
    then show ?thesis using zt by linarith
  qed
  have e: "8 * t = s / 2 ^ 50" by (simp add: t_def)
  have "s / 2 ^ 50 \<le> 2 ^ 1000 / 2 ^ 50" using s(2) by (intro divide_right_mono) auto
  then have fin: "\<bar>rd z\<bar> < 2 ^ 1024" using r huge_less unfolding e by linarith
  then have "js_round z = Num (rd z) \<or> (js_round z = NegZero)"
    by (auto simp: js_round_def Let_def)
  then show ?thesis using r spos unfolding e by auto
qed

lemma range_facts:
  "(1::real) / 2 ^ 1022 \<le> 1 / 2 ^ 1000 / 4" "(2::real) ^ 1000 * 2 \<le> 2 ^ 1001"
  "(1::real) / 2 ^ 1022 \<le> 1 / 2 ^ 1000"
  by simp_all

lemma round_trip_legs:
  fixes s x1 q k :: real
  assumes s: "1 / 2 ^ 1000 \<le> s" "s \<le> 2 ^ 1000"
    and x1: "1 / 2 ^ 1000 \<le> x1" "x1 \<le> 2 ^ 1000"
    and q: "0 < q" "x1 * q = s * k"
    and k: "1 - 1 / 2 ^ 53 \<le> k" "k \<le> 1 + 2 * (1 / 2 ^ 53)"
  shows "\<exists>a b. js_round x1 = Num a \<and> a \<noteq> 0 \<and>
           js_sub (applySwapFee (Num a) (Num 0)) (Num 0) = Num a \<and>
           js_round (a * q) = Num b \<and> b \<noteq> 0 \<and>
           js_sub (applySwapFee (Num b) (Num 0)) (Num 0) = Num b \<and>
           is_finite (js_sub (Num b) (Num s)) \<and>
           \<bar>val (js_sub (Num b) (Num s))\<bar> \<le> s / 2 ^ 50"
proof -
  define u :: real where "u = 1 / 2 ^ 53"
  have u: "0 < u" "u \<le> 1 / 8" by (simp_all add: u_def)
  have k': "1 - u \<le> k" "k \<le> 1 + 2 * u" using k by (simp_all only: u_def)
  have kpos: "0 < k" using k' u by linarith
  have spos: "0 < s" using s(1) by (smt (verit) divide_pos_pos zero_less_power)
  have n1: "1 / 2 ^ 1022 \<le> x1" using x1(1) range_facts(3) by linarith
  have x1pos: "0 < x1" using x1(1) by (smt (verit) divide_pos_pos zero_less_power)
  define a where "a = rd x1"
  have ra: "js_round x1 = Num a" and apos: "0 < a" and da: "is_double (Num a)"
    unfolding a_def using leg_round[OF n1] x1(2) by auto
  have ia: "js_sub (applySwapFee (Num a) (Num 0)) (Num 0) = Num a"
    using da apos by (intro leg_identity) auto
  have a_lo: "x1 * (1 - u) \<le> a" and a_hi: "a \<le> x1 * (1 + u)"
    unfolding a_def u_def using rd_normal[OF n1] by auto
  define x2 where "x2 = a * q"
  have x2_lo: "s * k * (1 - u) \<le> x2"
  proof -
    have "x1 * (1 - u) * q \<le> a * q" using a_lo q(1) by (intro mult_right_mono) auto
    moreover have "x1 * (1 - u) * q = s * k * (1 - u)"
      using q(2) by (simp add: mult.commute mult.left_commute)
    ultimately show ?thesis by (simp add: x2_def)
  qed
  have x2_hi: "x2 \<le> s * k * (1 + u)"
  proof -
    have "a * q \<le> x1 * (1 + u) * q" using a_hi q(1) by (intro mult_right_mono) auto
    moreover have "x1 * (1 + u) * q = s * k * (1 + u)"
      using q(2) by (simp add: mult.commute mult.left_commute)
    ultimately show ?thesis by (simp add: x2_def)
  qed
  have half: "1 / 2 \<le> 1 - u" "1 / 2 \<le> k" using u k' by auto
  have n2: "1 / 2 ^ 1022 \<le> x2"
  proof -
    have "1 / 2 ^ 1000 * (1 / 2) * (1 / 2) \<le> s * k * (1 - u)"
      using s(1) half by (intro mult_mono) auto
    then show ?thesis using x2_lo range_facts(1) by simp
  qed
  have h2: "x2 \<le> 2 ^ 1001"
  proof -
    have "k * (1 + u) \<le> (1 + 2 * u) * (1 + u)" using k' u by (intro mult_right_mono) auto
    also have "\<dots> = 1 + u * (3 + 2 * u)" by (simp add: algebra_simps)
    also have "\<dots> \<le> 1 + 1 / 8 * 4" using u by (intro add_left_mono mult_mono) auto
    finally have "k * (1 + u) \<le> 2" by simp
    then have "s * (k * (1 + u)) \<le> 2 ^ 1000 * 2"
      using s(2) spos kpos u by (intro mult_mono) auto
    then show ?thesis using x2_hi range_facts(2) by (simp add: mult.assoc)
  qed
  define b where "b = rd x2"
  have rb: "js_round x2 = Num b" and bpos: "0 < b" and db: "is_double (Num b)"
    unfolding b_def using leg_round[OF n2 h2] by auto
  have ib: "js_sub (applySwapFee (Num b) (Num 0)) (Num 0) = Num b"
    using db bpos by (intro leg_identity) auto
  have b_lo: "x2 * (1 - u) \<le> b" and b_hi: "b \<le> x2 * (1 + u)"
    unfolding b_def u_def using rd_normal[OF n2] by auto
  have "s * k * (1 - u) * (1 - u) \<le> x2 * (1 - u)"
    using x2_lo u by (intro mult_right_mono) auto
  then have B1: "s * k * (1 - u) * (1 - u) \<le> b" using b_lo by linarith
  have "x2 * (1 + u) \<le> s * k * (1 + u) * (1 + u)"
    using x2_hi u by (intro mult_right_mono) auto
  then have B2: "b \<le> s * k * (1 + u) * (1 + u)" using b_hi by linarith
  have d: "\<bar>b - s\<bar> \<le> 5 * (1 / 2 ^ 53) * s"
    using round_trip_bound[OF u spos k' B1 B2] by (simp only: u_def)
  have sub: "js_sub (Num b) (Num s) = (if b - s = 0 then Num 0 else js_round (b - s))"
    using bpos spos by (simp add: js_sub_def js_add_def)
  have "is_finite (js_sub (Num b) (Num s)) \<and> \<bar>val (js_sub (Num b) (Num s))\<bar> \<le> s / 2 ^ 50"
  proof (cases "b - s = 0")
    case True
    then show ?thesis using spos sub by simp
  next
    case False
    then show ?thesis using small_round[OF d s] sub by simp
  qed
  then show ?thesis using ra apos ia rb bpos ib unfolding x2_def by blast
qed

lemma unit_product:
  assumes "js_mul (Num pA) (Num pB) = Num 1" "0 < pA" "0 < pB"
  shows "rd (pA * pB) = 1"
  using assms by (auto simp: js_mul_def js_round_def Let_def split: if_splits)

lemma round_trip_profit:
  assumes zero: "swapFeeA inp = Num 0" "swapFeeB inp = Num 0"
      "bridgeCostA inp = Num 0" "bridgeCostB inp = Num 0"
    and vals: "startAmount inp = Num s" "price (poolA inp) = Num pA"
      "price (poolB inp) = Num pB"
    and pos: "0 < pA" "0 < pB"
    and one: "js_mul (Num pA) (Num pB) = Num 1"
    and sense: "same_address (token0 (poolA inp)) (tokenIn inp)
                  \<noteq> same_address (token0 (poolB inp)) (tokenOut inp)"
    and s: "1 / 2 ^ 1000 \<le> s" "s \<le> 2 ^ 1000"
    and x: "1 / 2 ^ 1000
              \<le> (if same_address (token0 (poolA inp)) (tokenIn inp) then s * pA else s / pA)"
      "(if same_address (token0 (poolA inp)) (tokenIn inp) then s * pA else s / pA)
              \<le> 2 ^ 1000"
  shows "is_finite (profit (simulateDirection inp)) \<and>
         \<bar>val (profit (simulateDirection inp))\<bar> \<le> s / 2 ^ 50"
proof -
  have spos: "0 < s" using s(1) by (smt (verit) divide_pos_pos zero_less_power)
  have c1: "rd (pA * pB) = 1" using one pos by (rule unit_product)
  have cpos: "0 < pA * pB" using pos by simp
  note k = product_near_one[OF c1 cpos]
  have p: "profit (simulateDirection inp) = js_sub (step_finalAmount inp) (Num s)"
    using simulateDirection_steps[of inp] vals(1) by simp
  show ?thesis
  proof (cases "same_address (token0 (poolA inp)) (tokenIn inp)")
    case True
    then have nb: "\<not> same_address (token0 (poolB inp)) (tokenOut inp)" using sense by simp
    have x1: "1 / 2 ^ 1000 \<le> s * pA" "s * pA \<le> 2 ^ 1000" using x True by simp_all
    have q: "s * pA * pB = s * (pA * pB)" by simp
    obtain a b where ab: "js_round (s * pA) = Num a" "a \<noteq> 0"
        "js_sub (applySwapFee (Num a) (Num 0)) (Num 0) = Num a"
        "js_round (a * pB) = Num b" "b \<noteq> 0"
        "js_sub (applySwapFee (Num b) (Num 0)) (Num 0) = Num b"
        "is_finite (js_sub (Num b) (Num s)) \<and> \<bar>val (js_sub (Num b) (Num s))\<bar> \<le> s / 2 ^ 50"
      using round_trip_legs[OF s x1 pos(2) q k(1,2)] by blast
    have "js_mul (Num s) (Num pA) = Num a" using spos pos ab(1) by (simp add: js_mul_def)
    then have 1: "step_afterBridgeA inp = Num a"
      using True ab(3) by (simp add: step_afterBridgeA_def step_afterSwapA_def zero vals)
    have "js_mul (Num a) (Num pB) = Num b" using ab(2,4) pos by (simp add: js_mul_def)
    then have "step_finalAmount inp = Num b"
      using nb ab(6) 1 by (simp add: step_finalAmount_def step_afterSwapB_def zero vals)
    then show ?thesis using ab(7) p by simp
  next
    case False
    then have b: "same_address (token0 (poolB inp)) (tokenOut inp)" using sense by simp
    have x1: "1 / 2 ^ 1000 \<le> s / pA" "s / pA \<le> 2 ^ 1000" using x False by simp_all
    have qpos: "0 < 1 / pB" using pos by simp
    have q: "s / pA * (1 / pB) = s * (1 / (pA * pB))" by simp
    obtain a b where ab: "js_round (s / pA) = Num a" "a \<noteq> 0"
        "js_sub (applySwapFee (Num a) (Num 0)) (Num 0) = Num a"
        "js_round (a * (1 / pB)) = Num b" "b \<noteq> 0"
        "js_sub (applySwapFee (Num b) (Num 0)) (Num 0) = Num b"
        "is_finite (js_sub (Num b) (Num s)) \<and> \<bar>val (js_sub (Num b) (Num s))\<bar> \<le> s / 2 ^ 50"
      using round_trip_legs[OF s x1 qpos q k(3,4)] by blast
    have "js_div (Num s) (Num pA) = Num a" using spos pos ab(1) by (simp add: js_div_def)
    then have 1: "step_afterBridgeA inp = Num a"
      using False ab(3) by (simp add: step_afterBridgeA_def step_afterSwapA_def zero vals)
    have "js_div (Num a) (Num pB) = Num b" using ab(2,4) pos by (simp add: js_div_def)
    then have "step_finalAmount inp = Num b"
      using b ab(6) 1 by (simp add: step_finalAmount_def step_afterSwapB_def zero vals)
    then show ?thesis using ab(7) p by simp
  qed
qed

lemma js_round_half: "js_round (1 / 2) = Num (1 / 2)"
  using js_round_dyadic[of 1 "- 1"] by (simp add: power_int_minus_divide)

section \<open>A complete simulated run\<close>

lemma js_round_eval:
  assumes "2 powi e \<le> \<bar>x\<bar>" "\<bar>x\<bar> < 2 powi (e + 1)" "- 1022 \<le> e"
    and "rne (x / 2 powi (e - 52)) = n" "n \<noteq> 0"
    and "\<bar>of_int n * 2 powi (e - 52)\<bar> < (2::real) ^ 1024"
  shows "js_round x = Num (of_int n * 2 powi (e - 52))"
proof -
  have "rd x = of_int n * 2 powi (e - 52)"
    using rd_eval[OF assms(1-3)] assms(4) by simp
  then show ?thesis using assms(5,6) by (auto simp: js_round_def Let_def)
qed

lemma lit_0p0005: "js_lit (1 / 2000) = Num (1152921504606847 / 2305843009213693952)"
proof -
  have "js_round (1 / 2000) = Num (of_int (4611686018427388) * 2 powi (-11 - 52))"
    by (rule js_round_eval) (simp_all add: rne_def Let_def)
  then show ?thesis by (simp add: js_lit_def)
qed

lemma lit_0p005: "js_lit (1 / 200) = Num (5764607523034235 / 1152921504606846976)"
proof -
  have "js_round (1 / 200) = Num (of_int (5764607523034235) * 2 powi (-8 - 52))"
    by (rule js_round_eval) (simp_all add: rne_def Let_def)
  then show ?thesis by (simp add: js_lit_def)
qed

lemma lit_9p995: "js_lit (1999 / 200) = Num (5626684784446013 / 562949953421312)"
proof -
  have "js_round (1999 / 200) = Num (of_int (5626684784446013) * 2 powi (3 - 52))"
    by (rule js_round_eval) (simp_all add: rne_def Let_def)
  then show ?thesis by (simp add: js_lit_def)
qed

lemma lit_0p1: "js_lit (1 / 10) = Num (3602879701896397 / 36028797018963968)"
proof -
  have "js_round (1 / 10) = Num (of_int (7205759403792794) * 2 powi (-4 - 52))"
    by (rule js_round_eval) (simp_all add: rne_def Let_def)
  then show ?thesis by (simp add: js_lit_def)
qed

lemma lit_9p895: "js_lit (1979 / 200) = Num (2785194894551941 / 281474976710656)"
proof -
  have "js_round (1979 / 200) = Num (of_int (5570389789103882) * 2 powi (3 - 52))"
    by (rule js_round_eval) (simp_all add: rne_def Let_def)
  then show ?thesis by (simp add: js_lit_def)
qed

lemma lit_0p004947: "js_lit (4947 / 1000000) = Num (712937835411259 / 144115188075855872)"
proof -
  have "js_round (4947 / 1000000) = Num (of_int (5703502683290072) * 2 powi (-8 - 52))"
    by (rule js_round_eval) (simp_all add: rne_def Let_def)
  then show ?thesis by (simp add: js_lit_def)
qed

lemma lit_9p890053: "js_lit (9890053 / 1000000) = Num (5567604875684307 / 562949953421312)"
proof -
  have "js_round (9890053 / 1000000) = Num (of_int (5567604875684307) * 2 powi (3 - 52))"
    by (rule js_round_eval) (simp_all add: rne_def Let_def)
  then show ?thesis by (simp add: js_lit_def)
qed

lemma sub_bridge1: "js_sub (Num (5626684784446013 / 562949953421312)) (Num (3602879701896397 / 36028797018963968)) = Num (2785194894551941 / 281474976710656)"
proof -
  have "js_round (356504946502648435 / 36028797018963968) = Num (of_int (5570389789103882) * 2 powi (3 - 52))"
    by (rule js_round_eval) (simp_all add: rne_def Let_def)
  then show ?thesis by (simp add: js_sub_def js_add_def)
qed

lemma sub_bridge2: "js_sub (Num (5567604875684307 / 562949953421312)) (Num (3602879701896397 / 36028797018963968)) = Num (172228433760693 / 17592186044416)"
proof -
  have "js_round (352723832341899251 / 36028797018963968) = Num (of_int (5511309880342176) * 2 powi (3 - 52))"
    by (rule js_round_eval) (simp_all add: rne_def Let_def)
  then show ?thesis by (simp add: js_sub_def js_add_def)
qed

lemma sub_profit: "js_sub (Num (172228433760693 / 17592186044416)) (Num 10) = Num (- (3693426683467 / 17592186044416))"
proof -
  have "js_round (- (3693426683467 / 17592186044416)) = Num (of_int (- 7564137847740416) * 2 powi (-3 - 52))"
    by (rule js_round_eval) (simp_all add: rne_def Let_def)
  then show ?thesis by (simp add: js_sub_def js_add_def)
qed

lemmas float_evals = lit_0p0005 lit_0p005 lit_9p995 lit_0p1 lit_9p895 lit_0p004947
  lit_9p890053 sub_bridge1 sub_bridge2 sub_profit

lemma rt_bn:
  "bn sample_runtime (Num 10) 6 = Inr 10000000"
  "bn sample_runtime (Num 1) 6 = Inr 1000000"
  "bn sample_runtime (js_lit (1 / 2000)) 6 = Inr 500"
  "bn sample_runtime (Num (2785194894551941 / 281474976710656)) 6 = Inr 9895000"
  "parseUnits sample_runtime ''1'' 6 = Inr 1000000"
  by (simp_all add: bn_def sample_runtime_def float_evals)

lemma rt_num:
  "bnToNum sample_runtime 10000000 6 = Num 10"
  "bnToNum sample_runtime 5000 6 = Num (5764607523034235 / 1152921504606846976)"
  "bnToNum sample_runtime 9995000 6 = Num (5626684784446013 / 562949953421312)"
  "bnToNum sample_runtime 9895000 6 = Num (2785194894551941 / 281474976710656)"
  "bnToNum sample_runtime 4947 6 = Num (712937835411259 / 144115188075855872)"
  "bnToNum sample_runtime 9890053 6 = Num (5567604875684307 / 562949953421312)"
  "randomTxHash sample_runtime = ''0x2386f26fc10000''"
  by (simp_all add: bnToNum_def sample_runtime_def float_evals)

lemma rt_mul:
  "bnMul sample_runtime 10000000 1000000 6 = Inr 10000000"
  "bnMul sample_runtime 10000000 500 6 = Inr 5000"
  "bnDiv sample_runtime 9895000 1000000 6 = Inr 9895000"
  "bnMul sample_runtime 9895000 1000000 6 = Inr 9895000"
  "bnMul sample_runtime 9895000 500 6 = Inr 4947"
  by (simp_all add: bnMul_def bnDiv_def err_bind_def bigint_div_def trunc_div_def rt_bn)

lemma run_swap1:
  "mockSwap sample_runtime ''Pharaoh'' ''Avalanche'' USDC USDT (Num 10) (Num 1) (Num 0) None =
     ([Enter MockSwap,
       Console (SwapDetails ''Pharaoh'' (Num 10) (Num 10)
                  (Num (5764607523034235 / 1152921504606846976))
                  (Num (5626684784446013 / 562949953421312))),
       LogFile (SwapDetails ''Pharaoh'' (Num 10) (Num 10)
                  (Num (5764607523034235 / 1152921504606846976))
                  (Num (5626684784446013 / 562949953421312)))],
      Inr \<lparr>amountOut = Num (5626684784446013 / 562949953421312),
           txHash = ''0x2386f26fc10000''\<rparr>)"
  unfolding mockSwap_def Let_def
  by (simp add: io_bind_def io_of_def io_emit_def io_return_def rt_bn rt_num rt_mul usd_ne
      other_token)


lemma run_bridge1:
  "mockStargateBridge ''Avalanche'' ''Sonic'' (Num (5626684784446013 / 562949953421312))
       USDT None None =
     ([Enter MockStargateBridge,
       Console (BridgeInitiated MockStargateBridge (Num (5626684784446013 / 562949953421312))),
       LogFile (BridgeInitiated MockStargateBridge (Num (5626684784446013 / 562949953421312))),
       Sleep 7000,
       Console (BridgeComplete MockStargateBridge (Num (2785194894551941 / 281474976710656))),
       LogFile (BridgeComplete MockStargateBridge (Num (2785194894551941 / 281474976710656)))],
      Inr \<lparr>amountReceived = Num (2785194894551941 / 281474976710656),
           bridge_txHash = ''0xmockstargate''\<rparr>)"
  unfolding mockStargateBridge_def Let_def
  by (simp add: io_bind_def io_emit_def io_return_def float_evals)

lemma run_swap2:
  "mockSwap sample_runtime ''Shadow'' ''Sonic'' USDT USDC
       (Num (2785194894551941 / 281474976710656)) (Num 1) (Num 0) None =
     ([Enter MockSwap,
       Console (SwapDetails ''Shadow'' (Num (2785194894551941 / 281474976710656))
                  (Num (2785194894551941 / 281474976710656))
                  (Num (712937835411259 / 144115188075855872))
                  (Num (5567604875684307 / 562949953421312))),
       LogFile (SwapDetails ''Shadow'' (Num (2785194894551941 / 281474976710656))
                  (Num (2785194894551941 / 281474976710656))
                  (Num (712937835411259 / 144115188075855872))
                  (Num (5567604875684307 / 562949953421312)))],
      Inr \<lparr>amountOut = Num (5567604875684307 / 562949953421312),
           txHash = ''0x2386f26fc10000''\<rparr>)"
  unfolding mockSwap_def Let_def
  by (simp add: io_bind_def io_of_def io_emit_def io_return_def rt_bn rt_num rt_mul usd_ne
      other_token)

lemma run_bridge2:
  "mockCcipBridge ''Sonic'' ''Avalanche'' (Num (5567604875684307 / 562949953421312))
       USDC None None =
     ([Enter MockCcipBridge,
       Console (BridgeInitiated MockCcipBridge (Num (5567604875684307 / 562949953421312))),
       LogFile (BridgeInitiated MockCcipBridge (Num (5567604875684307 / 562949953421312))),
       Sleep 5000,
       Console (BridgeComplete MockCcipBridge (Num (172228433760693 / 17592186044416))),
       LogFile (BridgeComplete MockCcipBridge (Num (172228433760693 / 17592186044416)))],
      Inr \<lparr>amountReceived = Num (172228433760693 / 17592186044416),
           bridge_txHash = ''0xmockccip''\<rparr>)"
  unfolding mockCcipBridge_def Let_def
  by (simp add: io_bind_def io_emit_def io_return_def float_evals)

lemma complete_simulated_run:
  "snd (simulateExecution sample_config sample_runtime USDC_first
          \<lparr>token0 = USDC, token1 = USDT, price = Num 1\<rparr>
          \<lparr>token0 = USDC, token1 = USDT, price = Num 1\<rparr>) = Inr () \<and>
   last (fst (simulateExecution sample_config sample_runtime USDC_first
          \<lparr>token0 = USDC, token1 = USDT, price = Num 1\<rparr>
          \<lparr>token0 = USDC, token1 = USDT, price = Num 1\<rparr>))
     = Console (RoundTripComplete USDC_first (Num 10)
         (Num (172228433760693 / 17592186044416))
         (Num (- (3693426683467 / 17592186044416))))"
  by (simp add: simulateExecution_def sample_config_def Let_def io_bind_def io_emit_def
      run_swap1 run_bridge1 run_swap2 run_bridge2 sub_profit)

section \<open>The test input evaluated\<close>















section \<open>Strict decrease under a fee\<close>

text \<open>The error of rounding a number that may lie below the normal range.\<close>

lemma rd_err_mixed:
  assumes "0 \<le> x"
  shows "\<bar>rd x - x\<bar> \<le> x / 2 ^ 53 + 1 / 2 ^ 1075"
proof (cases "x = 0")
  case True
  then show ?thesis by simp
next
  case False
  then have xpos: "0 < x" using assms by simp
  have b: "2 powi (bexp x) \<le> x" using bexp_bounds[OF False] xpos by simp
  show ?thesis
  proof (cases "- 1022 \<le> bexp x")
    case True
    then have e: "max (bexp x) (- 1022) = bexp x" by simp
    have "ulp x / 2 = 2 powi (bexp x) / 2 ^ 53"
      by (simp add: ulp_def e power_int_diff)
    also have "\<dots> \<le> x / 2 ^ 53" using b by (intro divide_right_mono) auto
    finally have "ulp x / 2 \<le> x / 2 ^ 53 + 1 / 2 ^ 1075" by simp
    then show ?thesis using rd_abs_err[of x] by linarith
  next
    case False
    then have e: "max (bexp x) (- 1022) = - 1022" by simp
    have "ulp x / 2 = 2 powi (- 1075)"
      by (simp add: ulp_def e power_int_minus_divide)
    also have "\<dots> = 1 / 2 ^ 1075" by (simp add: power_int_minus_divide)
    finally have "ulp x / 2 \<le> x / 2 ^ 53 + 1 / 2 ^ 1075" using xpos by simp
    then show ?thesis using rd_abs_err[of x] by linarith
  qed
qed

text \<open>
  Two fee factors \<open>g1\<close> and \<open>g2\<close> that are the roundings of \<open>w\<close> and \<open>v\<close>, eight rounding
  units apart, give products with \<open>a\<close> whose roundings \<open>r1\<close> and \<open>r2\<close> differ.
\<close>

lemma strict_gap:
  fixes a w v u t g1 g2 r1 r2 :: real
  assumes u: "0 < u" "u \<le> 1" and t: "0 \<le> t" "t * (a + 1) < 2 * u * a" and a: "0 < a"
    and v: "0 \<le> v" "v + 8 * u \<le> w" and w: "w \<le> 1"
    and g1: "w * (1 - u) \<le> g1"
    and g2: "0 \<le> g2" "g2 \<le> v * (1 + u) + t"
    and r1: "a * g1 * (1 - u) - t \<le> r1"
    and r2: "r2 \<le> a * g2 * (1 + u) + t"
  shows "r2 < r1"
proof -
  have "a * g2 * (1 + u) \<le> a * (v * (1 + u) + t) * (1 + u)"
    using a u g2 by (intro mult_right_mono mult_left_mono) auto
  also have "\<dots> = a * v * ((1 + u) * (1 + u)) + a * t * (1 + u)"
    by (simp add: algebra_simps)
  also have "\<dots> \<le> a * (w - 8 * u) * ((1 + u) * (1 + u)) + a * t * 2"
  proof (intro add_mono mult_right_mono mult_left_mono)
  qed (use a u v t in auto)
  finally have up: "r2 \<le> a * (w - 8 * u) * ((1 + u) * (1 + u)) + 2 * a * t + t"
    using r2 by linarith
  have "a * (w * (1 - u)) * (1 - u) \<le> a * g1 * (1 - u)"
    using a u g1 by (intro mult_right_mono mult_left_mono) auto
  then have lo: "a * w * ((1 - u) * (1 - u)) - t \<le> r1"
    using r1 by (simp add: mult.assoc)
  have "a * w * ((1 - u) * (1 - u)) - a * (w - 8 * u) * ((1 + u) * (1 + u))
          = a * (8 * u * ((1 + u) * (1 + u)) - 4 * u * w)"
    by (simp add: algebra_simps)
  moreover have "a * (4 * u) \<le> a * (8 * u * ((1 + u) * (1 + u)) - 4 * u * w)"
  proof (intro mult_left_mono)
    have "1 \<le> (1 + u) * (1 + u)" using u by (simp add: algebra_simps)
    then have "8 * u * 1 \<le> 8 * u * ((1 + u) * (1 + u))"
      using u by (intro mult_left_mono) auto
    moreover have "4 * u * w \<le> 4 * u * 1" using u w by (intro mult_left_mono) auto
    ultimately show "4 * u \<le> 8 * u * ((1 + u) * (1 + u)) - 4 * u * w" by linarith
  qed (use a in auto)
  moreover have "2 * a * t + 2 * t < a * (4 * u)" using t(2) by (simp add: algebra_simps)
  moreover define X where "X = a * w * ((1 - u) * (1 - u))"
  moreover define Y where "Y = a * (w - 8 * u) * ((1 + u) * (1 + u))"
  moreover define Z where "Z = a * (8 * u * ((1 + u) * (1 + u)) - 4 * u * w)"
  moreover define T where "T = 2 * a * t"
  moreover define W where "W = a * (4 * u)"
  ultimately have "X - Y = Z" "W \<le> Z" "T + 2 * t < W" "r2 \<le> Y + T + t" "X - t \<le> r1"
    using up lo by simp_all
  then show ?thesis by linarith
qed

text \<open>
  On a normal amount, two fee fractions at least \<open>2 ^ -50\<close> apart give different amounts.
\<close>

lemma fee_strict:
  assumes a: "is_double (Num a)" "1 / 2 ^ 1022 \<le> a"
    and f: "0 \<le> f1" "f1 + 1 / 2 ^ 50 \<le> f2" "f2 < 1"
  shows "js_lt (applySwapFee (Num a) (Num f2)) (applySwapFee (Num a) (Num f1))"
proof -
  define g1 where "g1 = rd (1 - f1)"
  define g2 where "g2 = rd (1 - f2)"
  define u :: real where "u = 1 / 2 ^ 53"
  define t :: real where "t = 1 / 2 ^ 1075"
  define c :: real where "c = 1 / 2 ^ 1022"
  have apos: "0 < a" using a(2) by (smt (verit) divide_pos_pos zero_less_power)
  have f12: "f1 \<le> f2" "f1 < 1" using f by (smt (verit) divide_pos_pos zero_less_power)+
  have s1: "js_sub (Num 1) (Num f1) = Num g1" and b1: "0 \<le> g1" "g1 \<le> 1"
    using one_minus_fee[of f1] f f12 unfolding g1_def by auto
  have s2: "js_sub (Num 1) (Num f2) = Num g2" and b2: "0 \<le> g2" "g2 \<le> 1"
    using one_minus_fee[of f2] f f12 unfolding g2_def by auto
  have m1: "applySwapFee (Num a) (Num f1) = Num (rd (a * g1))"
    unfolding applySwapFee_def s1 using a(1) apos b1 by (rule mul_fraction)
  have m2: "applySwapFee (Num a) (Num f2) = Num (rd (a * g2))"
    unfolding applySwapFee_def s2 using a(1) apos b2 by (rule mul_fraction)
  have upos: "0 < u" "u \<le> 1" and tpos: "0 \<le> t" and c: "0 < c" "c < 1"
    unfolding u_def t_def c_def by simp_all
  have tu: "t = u * c" unfolding t_def u_def c_def by simp
  have "c * a + c < a + a" using c apos a(2) unfolding c_def[symmetric]
    by (smt (verit) mult_less_cancel_right2)
  then have "u * (c * a + c) < u * (a + a)" using upos by (intro mult_strict_left_mono)
  then have tt: "t * (a + 1) < 2 * u * a" unfolding tu by (simp add: algebra_simps)
  have eight: "8 * u = 1 / 2 ^ 50" unfolding u_def by simp
  have v: "0 \<le> 1 - f2" "(1 - f2) + 8 * u \<le> 1 - f1" and w: "1 - f1 \<le> 1"
    using f unfolding eight by simp_all
  have wn: "1 / 2 ^ 1022 \<le> 1 - f1"
  proof -
    have "(1::real) / 2 ^ 1022 \<le> 1 / 2 ^ 50" by simp
    then show ?thesis using f by linarith
  qed
  have "(1 - f1) * (1 - 1 / 2 ^ 53) \<le> rd (1 - f1)" using wn by (rule rd_normal(1))
  then have G1: "(1 - f1) * (1 - u) \<le> g1" unfolding g1_def u_def .
  have "\<bar>rd (1 - f2) - (1 - f2)\<bar> \<le> (1 - f2) / 2 ^ 53 + 1 / 2 ^ 1075"
    using v(1) by (rule rd_err_mixed)
  then have "g2 \<le> (1 - f2) + (1 - f2) * u + t" unfolding g2_def u_def t_def by simp
  then have G2: "g2 \<le> (1 - f2) * (1 + u) + t" by (simp add: algebra_simps)
  have p1: "0 \<le> a * g1" and p2: "0 \<le> a * g2" using apos b1 b2 by simp_all
  have "\<bar>rd (a * g1) - a * g1\<bar> \<le> a * g1 / 2 ^ 53 + 1 / 2 ^ 1075"
    using p1 by (rule rd_err_mixed)
  then have "a * g1 - a * g1 * u - t \<le> rd (a * g1)" unfolding u_def t_def by simp
  then have R1: "a * g1 * (1 - u) - t \<le> rd (a * g1)" by (simp add: algebra_simps)
  have "\<bar>rd (a * g2) - a * g2\<bar> \<le> a * g2 / 2 ^ 53 + 1 / 2 ^ 1075"
    using p2 by (rule rd_err_mixed)
  then have "rd (a * g2) \<le> a * g2 + a * g2 * u + t" unfolding u_def t_def by simp
  then have R2: "rd (a * g2) \<le> a * g2 * (1 + u) + t" by (simp add: algebra_simps)
  have "rd (a * g2) < rd (a * g1)"
    using upos tpos tt apos v w G1 b2(1) G2 R1 R2 by (rule strict_gap)
  then show ?thesis unfolding m1 m2 by (simp add: js_lt_def)
qed

text \<open>
  Below the normal range the grid is too coarse: three quarters of the least positive
  number round back to it.
\<close>

lemma rne_three_quarters: "rne (3 / 4) = 1"
proof -
  have "\<lfloor>3 / 4 :: real\<rfloor> = 0" by simp
  then show ?thesis by (simp add: rne_def Let_def)
qed

lemma rd_below_least: "rd (2 powi (- 1074) * (3 / 4)) = 2 powi (- 1074)"
proof -
  define m :: real where "m = 2 powi (- 1074)"
  have mpos: "0 < m" unfolding m_def by simp
  have h: "(2::real) powi (- 1075) = m / 2"
    unfolding m_def using power_int_add[of "2::real" "- 1075" 1] by simp
  have "2 powi (- 1075) \<le> \<bar>m * (3 / 4)\<bar>" unfolding h using mpos by simp
  moreover have "\<bar>m * (3 / 4)\<bar> < 2 powi (- 1075 + 1)"
  proof -
    have e: "(- 1075 + 1 :: int) = - 1074" by simp
    have "\<bar>m * (3 / 4)\<bar> < m" using mpos by simp
    then show ?thesis unfolding e m_def .
  qed
  ultimately have "bexp (m * (3 / 4)) = - 1075" by (rule bexp_unique)
  then have "ulp (m * (3 / 4)) = m" by (simp add: ulp_def m_def)
  then have "rd (m * (3 / 4)) = of_int (rne (m * (3 / 4) / m)) * m" by (simp add: rd_def)
  also have "m * (3 / 4) / m = 3 / 4" using mpos by simp
  finally show ?thesis unfolding m_def by (simp add: rne_three_quarters)
qed

lemma fee_on_least_amount:
  "is_double (Num (2 powi (- 1074))) \<and>
   applySwapFee (Num (2 powi (- 1074))) (Num 0) = Num (2 powi (- 1074)) \<and>
   applySwapFee (Num (2 powi (- 1074))) (Num (1 / 4)) = Num (2 powi (- 1074))"
proof -
  define m :: real where "m = 2 powi (- 1074)"
  have mpos: "0 < m" unfolding m_def by simp
  have m1: "m < 2 ^ 1024"
  proof -
    have "m \<le> 2 powi 0" unfolding m_def by (intro power_int_increasing) auto
    also have "\<dots> < (2::real) ^ 1024" by simp
    finally show ?thesis .
  qed
  have "js_round (of_int 1 * 2 powi (- 1074)) = Num (of_int 1 * 2 powi (- 1074))"
    by (rule js_round_dyadic) simp_all
  then have d: "is_double (Num m)" by (simp add: m_def)
  have z: "applySwapFee (Num m) (Num 0) = Num m" using d by (rule applySwapFee_zero)
  have "js_round (of_int 3 * 2 powi (- 2)) = Num (of_int 3 * 2 powi (- 2))"
    by (rule js_round_dyadic) simp_all
  then have q: "js_round (3 / 4) = Num (3 / 4)" by (simp add: power_int_minus_divide)
  have s: "js_sub (Num 1) (Num (1 / 4)) = Num (3 / 4)"
    using q by (simp add: js_sub_def js_add_def)
  have r: "rd (m * (3 / 4)) = m" unfolding m_def by (rule rd_below_least)
  have "js_round (m * (3 / 4)) = Num (rd (m * (3 / 4)))"
  proof (rule js_round_pos)
    show "0 < m * (3 / 4)" using mpos by simp
    show "rd (m * (3 / 4)) < 2 ^ 1024" unfolding r by (rule m1)
  qed
  then have "js_round (m * (3 / 4)) = Num m" unfolding r .
  then have "applySwapFee (Num m) (Num (1 / 4)) = Num m"
    unfolding applySwapFee_def s using mpos by (simp add: js_mul_def)
  then show ?thesis using d z unfolding m_def by blast
qed

lemma quarter_is_double: "is_double (Num (1 / 4))"
proof -
  have "js_round (of_int 1 * 2 powi (- 2)) = Num (of_int 1 * 2 powi (- 2))"
    by (rule js_round_dyadic) simp_all
  then show ?thesis by (simp add: power_int_minus_divide)
qed

section \<open>The claims\<close>





text \<open>
  Claim C3. A cycle with both quotes simulates both directions (both reports are
  printed). If the profit of direction 1 exceeds the threshold, direction 1 is executed,
  whatever the profit of direction 2; otherwise, if the profit of direction 2 exceeds the
  threshold, direction 2 is executed; otherwise nothing is executed and "no opportunity"
  is reported. No cycle executes more than one direction.
\<close>

theorem C3_first_profitable_direction_runs:
  "report (simulateDirection (direction1 cfg pharaoh shadow))
     \<in> set (fst (simulateArbitrage cfg rt (Inr pharaoh) (Inr shadow))) \<and>
   report (simulateDirection (direction2 cfg pharaoh shadow))
     \<in> set (fst (simulateArbitrage cfg rt (Inr pharaoh) (Inr shadow))) \<and>
   (js_gt (profit (simulateDirection (direction1 cfg pharaoh shadow))) (PROFIT_THRESHOLD cfg)
      \<longrightarrow> executions (fst (simulateArbitrage cfg rt (Inr pharaoh) (Inr shadow))) = [USDC_first]) \<and>
   (\<not> js_gt (profit (simulateDirection (direction1 cfg pharaoh shadow))) (PROFIT_THRESHOLD cfg) \<and>
    js_gt (profit (simulateDirection (direction2 cfg pharaoh shadow))) (PROFIT_THRESHOLD cfg)
      \<longrightarrow> executions (fst (simulateArbitrage cfg rt (Inr pharaoh) (Inr shadow))) = [USDT_first]) \<and>
   (\<not> js_gt (profit (simulateDirection (direction1 cfg pharaoh shadow))) (PROFIT_THRESHOLD cfg) \<and>
    \<not> js_gt (profit (simulateDirection (direction2 cfg pharaoh shadow))) (PROFIT_THRESHOLD cfg)
      \<longrightarrow> executions (fst (simulateArbitrage cfg rt (Inr pharaoh) (Inr shadow))) = [] \<and>
          Console NoOpportunity \<in> set (fst (simulateArbitrage cfg rt (Inr pharaoh) (Inr shadow)))) \<and>
   length (executions (fst (simulateArbitrage cfg rt pharaohQuote shadowQuote))) \<le> 1"
proof -
  have "length (executions (fst (simulateArbitrage cfg rt pharaohQuote shadowQuote))) \<le> 1"
    by (cases pharaohQuote; cases shadowQuote)
      (simp_all add: cycle_executions cycle_executions_failed_quote)
  then show ?thesis
    using cycle_reports[of cfg pharaoh shadow rt] cycle_no_opportunity[of cfg pharaoh shadow rt]
    by (simp add: cycle_executions)
qed

text \<open>
  Three cycles: both directions profitable with direction 2 the better one (direction 1
  runs), only direction 2 profitable, and neither.
\<close>

theorem C3_selection_witness:
  "profit (simulateDirection (direction1 (sample_config\<lparr>FEES_BRIDGE_USDT := Num 1\<rparr>)
      \<lparr>token0 = ''0xA'', token1 = ''0xB'', price = Num (1 / 2)\<rparr>
      \<lparr>token0 = ''0xA'', token1 = ''0xB'', price = Num 2\<rparr>)) = Num 28 \<and>
   profit (simulateDirection (direction2 (sample_config\<lparr>FEES_BRIDGE_USDT := Num 1\<rparr>)
      \<lparr>token0 = ''0xA'', token1 = ''0xB'', price = Num (1 / 2)\<rparr>
      \<lparr>token0 = ''0xA'', token1 = ''0xB'', price = Num 2\<rparr>)) = Num 29 \<and>
   js_gt (Num 28) (PROFIT_THRESHOLD (sample_config\<lparr>FEES_BRIDGE_USDT := Num 1\<rparr>)) \<and>
   js_gt (Num 29) (Num 28) \<and>
   executions (fst (simulateArbitrage (sample_config\<lparr>FEES_BRIDGE_USDT := Num 1\<rparr>) sample_runtime
      (Inr \<lparr>token0 = ''0xA'', token1 = ''0xB'', price = Num (1 / 2)\<rparr>)
      (Inr \<lparr>token0 = ''0xA'', token1 = ''0xB'', price = Num 2\<rparr>))) = [USDC_first] \<and>
   profit (simulateDirection (direction1 sample_config
      \<lparr>token0 = USDC, token1 = USDT, price = Num (1 / 2)\<rparr>
      \<lparr>token0 = USDT, token1 = USDC, price = Num 1\<rparr>)) = Num (- 5) \<and>
   profit (simulateDirection (direction2 sample_config
      \<lparr>token0 = USDC, token1 = USDT, price = Num (1 / 2)\<rparr>
      \<lparr>token0 = USDT, token1 = USDC, price = Num 1\<rparr>)) = Num 10 \<and>
   \<not> js_gt (Num (- 5)) (PROFIT_THRESHOLD sample_config) \<and>
   js_gt (Num 10) (PROFIT_THRESHOLD sample_config) \<and>
   executions (fst (simulateArbitrage sample_config sample_runtime
      (Inr \<lparr>token0 = USDC, token1 = USDT, price = Num (1 / 2)\<rparr>)
      (Inr \<lparr>token0 = USDT, token1 = USDC, price = Num 1\<rparr>))) = [USDT_first] \<and>
   profit (simulateDirection (direction1 sample_config
      \<lparr>token0 = USDC, token1 = USDT, price = Num 1\<rparr>
      \<lparr>token0 = USDT, token1 = USDC, price = Num 1\<rparr>)) = Num 0 \<and>
   profit (simulateDirection (direction2 sample_config
      \<lparr>token0 = USDC, token1 = USDT, price = Num 1\<rparr>
      \<lparr>token0 = USDT, token1 = USDC, price = Num 1\<rparr>)) = Num 0 \<and>
   \<not> js_gt (Num 0) (PROFIT_THRESHOLD sample_config) \<and>
   executions (fst (simulateArbitrage sample_config sample_runtime
      (Inr \<lparr>token0 = USDC, token1 = USDT, price = Num 1\<rparr>)
      (Inr \<lparr>token0 = USDT, token1 = USDC, price = Num 1\<rparr>))) = [] \<and>
   Console NoOpportunity \<in> set (fst (simulateArbitrage sample_config sample_runtime
      (Inr \<lparr>token0 = USDC, token1 = USDT, price = Num 1\<rparr>)
      (Inr \<lparr>token0 = USDT, token1 = USDC, price = Num 1\<rparr>)))"
proof -
  have t: "PROFIT_THRESHOLD sample_config = Num 0"
    "PROFIT_THRESHOLD (sample_config\<lparr>FEES_BRIDGE_USDT := Num 1\<rparr>) = Num 0"
    by (simp_all add: sample_config_def)
  have g: "js_gt (Num 28) (Num 0)" "js_gt (Num 29) (Num 28)" "\<not> js_gt (Num (- 5)) (Num 0)"
    "js_gt (Num 10) (Num 0)" "\<not> js_gt (Num 0) (Num 0)"
    by (simp_all add: js_gt_def js_lt_def)
  show ?thesis
    using C3_first_profitable_direction_runs[of "sample_config\<lparr>FEES_BRIDGE_USDT := Num 1\<rparr>"
        "\<lparr>token0 = ''0xA'', token1 = ''0xB'', price = Num (1 / 2)\<rparr>"
        "\<lparr>token0 = ''0xA'', token1 = ''0xB'', price = Num 2\<rparr>" sample_runtime]
      C3_first_profitable_direction_runs[of sample_config
        "\<lparr>token0 = USDC, token1 = USDT, price = Num (1 / 2)\<rparr>"
        "\<lparr>token0 = USDT, token1 = USDC, price = Num 1\<rparr>" sample_runtime]
      C3_first_profitable_direction_runs[of sample_config
        "\<lparr>token0 = USDC, token1 = USDT, price = Num 1\<rparr>"
        "\<lparr>token0 = USDT, token1 = USDC, price = Num 1\<rparr>" sample_runtime]
    unfolding both_profitable second_profitable none_profitable t
    using g by blast
qed

text \<open>
  Claim C4, where the code departs from it. With fewer decimals for token 0 than for
  token 1 the exponent is negative and \<^verbatim>\<open>10n ** BigInt(...)\<close> throws a RangeError: for a
  1:1 pool of a 6-decimal and an 18-decimal token no price is returned.
\<close>

theorem C4_negative_exponent_throws:
  "getPriceFromSqrtPriceX96BigInt (2 ^ 96) 6 18 = Inl RangeError"
  by (rule price_throws) simp

text \<open>
  Claim C5, as the code has it. \<^verbatim>\<open>simulateDirection\<close> signals no error. When a step
  divides by a pool price that is zero, the final amount and the profit it returns are
  not finite: each is an infinity or NaN.
\<close>

theorem C5_zero_price_gives_nonfinite:
  assumes "(\<not> same_address (token0 (poolA inp)) (tokenIn inp) \<and> is_zero (price (poolA inp)))
         \<or> (same_address (token0 (poolB inp)) (tokenOut inp) \<and> is_zero (price (poolB inp)))"
  shows "\<not> is_finite (finalAmount (simulateDirection inp)) \<and>
         \<not> is_finite (profit (simulateDirection inp))"
  using assms by (rule zero_price_nonfinite)

text \<open>
  Against "never silently produces NaN or Infinity": 10 tokens over a pool A of price 0
  on the division branch give \<open>Infinity\<close> as final amount and as profit.
\<close>

theorem C5_zero_price_returns_infinity:
  "finalAmount (simulateDirection (free_round_trip (Num 10) (Num 0) (Num 1) ''0xB'' ''0xB'')) = PosInf \<and>
   profit (simulateDirection (free_round_trip (Num 10) (Num 0) (Num 1) ''0xB'' ''0xB'')) = PosInf"
  by (rule zero_price_run)

text \<open>The same run as an instance of the theorem.\<close>

theorem C5_zero_price_witness:
  "\<not> same_address (token0 (poolA (free_round_trip (Num 10) (Num 0) (Num 1) ''0xB'' ''0xB'')))
       (tokenIn (free_round_trip (Num 10) (Num 0) (Num 1) ''0xB'' ''0xB'')) \<and>
   is_zero (price (poolA (free_round_trip (Num 10) (Num 0) (Num 1) ''0xB'' ''0xB''))) \<and>
   \<not> is_finite (finalAmount (simulateDirection
       (free_round_trip (Num 10) (Num 0) (Num 1) ''0xB'' ''0xB''))) \<and>
   \<not> is_finite (profit (simulateDirection
       (free_round_trip (Num 10) (Num 0) (Num 1) ''0xB'' ''0xB'')))"
proof -
  have h: "\<not> same_address (token0 (poolA (free_round_trip (Num 10) (Num 0) (Num 1) ''0xB'' ''0xB'')))
       (tokenIn (free_round_trip (Num 10) (Num 0) (Num 1) ''0xB'' ''0xB'')) \<and>
     is_zero (price (poolA (free_round_trip (Num 10) (Num 0) (Num 1) ''0xB'' ''0xB'')))"
    by (simp add: free_round_trip_def same_address_def addr_ne)
  then show ?thesis
    using C5_zero_price_gives_nonfinite[of "free_round_trip (Num 10) (Num 0) (Num 1) ''0xB'' ''0xB''"]
    by blast
qed

text \<open>
  Claim C6, as the code has it. With \<^verbatim>\<open>LIVE_MODE\<close> false, a run of the pipeline enters
  no live collaborator and makes no retried call, for every direction and at every
  stage. It can fail, but only by a RangeError of a bigint division by zero or by an
  error that \<^verbatim>\<open>parseUnits\<close> throws.
\<close>

theorem C6_simulated_mode_uses_mocks_only:
  assumes "\<not> LIVE_MODE cfg"
  shows "list_all (\<lambda>e. \<not> live_event e) (fst (simulateExecution cfg rt dir pharaoh shadow)) \<and>
         (\<forall>e. snd (simulateExecution cfg rt dir pharaoh shadow) = Inl e \<longrightarrow> mock_failure rt e)"
  using assms simulated_no_live_event simulated_failure by blast

text \<open>
  Against "the simulated path never fails": with a Pharaoh price of 0 the first mock swap
  of the USDT-first direction divides by \<^verbatim>\<open>0n\<close> and throws a RangeError.
\<close>

theorem C6_simulated_run_fails_on_zero_price:
  "\<not> LIVE_MODE sample_config \<and>
   snd (simulateExecution sample_config sample_runtime USDT_first
          \<lparr>token0 = USDC, token1 = USDT, price = Num 0\<rparr>
          \<lparr>token0 = USDC, token1 = USDT, price = Num 1\<rparr>) = Inl RangeError"
  by (rule zero_price_simulated_run)

text \<open>
  Two simulated runs with 10 tokens: over two pools of price 1 the run completes with
  9.790053 received, a loss of about 0.21; over a Pharaoh pool of price 0 it fails.
\<close>

theorem C6_simulated_mode_witness:
  "\<not> LIVE_MODE sample_config \<and>
   list_all (\<lambda>e. \<not> live_event e)
     (fst (simulateExecution sample_config sample_runtime USDC_first
            \<lparr>token0 = USDC, token1 = USDT, price = Num 1\<rparr>
            \<lparr>token0 = USDC, token1 = USDT, price = Num 1\<rparr>)) \<and>
   snd (simulateExecution sample_config sample_runtime USDC_first
          \<lparr>token0 = USDC, token1 = USDT, price = Num 1\<rparr>
          \<lparr>token0 = USDC, token1 = USDT, price = Num 1\<rparr>) = Inr () \<and>
   last (fst (simulateExecution sample_config sample_runtime USDC_first
          \<lparr>token0 = USDC, token1 = USDT, price = Num 1\<rparr>
          \<lparr>token0 = USDC, token1 = USDT, price = Num 1\<rparr>))
     = Console (RoundTripComplete USDC_first (Num 10)
         (Num (172228433760693 / 17592186044416))
         (Num (- (3693426683467 / 17592186044416)))) \<and>
   list_all (\<lambda>e. \<not> live_event e)
     (fst (simulateExecution sample_config sample_runtime USDT_first
            \<lparr>token0 = USDC, token1 = USDT, price = Num 0\<rparr>
            \<lparr>token0 = USDC, token1 = USDT, price = Num 1\<rparr>)) \<and>
   snd (simulateExecution sample_config sample_runtime USDT_first
          \<lparr>token0 = USDC, token1 = USDT, price = Num 0\<rparr>
          \<lparr>token0 = USDC, token1 = USDT, price = Num 1\<rparr>) = Inl RangeError \<and>
   mock_failure sample_runtime RangeError"
proof -
  have h: "\<not> LIVE_MODE sample_config" by (simp add: sample_config_def)
  show ?thesis
    using zero_price_simulated_run complete_simulated_run
      C6_simulated_mode_uses_mocks_only[OF h, of sample_runtime USDT_first
        "\<lparr>token0 = USDC, token1 = USDT, price = Num 0\<rparr>"
        "\<lparr>token0 = USDC, token1 = USDT, price = Num 1\<rparr>"]
      C6_simulated_mode_uses_mocks_only[OF h, of sample_runtime USDC_first
        "\<lparr>token0 = USDC, token1 = USDT, price = Num 1\<rparr>"
        "\<lparr>token0 = USDC, token1 = USDT, price = Num 1\<rparr>"]
    by blast
qed

text \<open>
  Claim C7. For every decimal count \<open>d\<close>, the price of the square-root price \<open>2 ^ 96\<close>
  with decimals \<open>(d, d)\<close> is a number within \<open>1e-6\<close> of 1 (it is exactly 1).
\<close>

theorem C7_price_of_1to1_pool:
  "\<exists>p. getPriceFromSqrtPriceX96BigInt (2 ^ 96) d d = Inr (Num p) \<and> \<bar>p - 1\<bar> \<le> 1 / 10 ^ 6"
  using price_1to1[of d] by (intro exI[of _ 1]) simp

text \<open>
  Claim C8, as the code has it. Take a round trip without fees and bridge costs over two
  pools with positive prices whose product is 1 as JavaScript computes it, where the two
  swaps use the price in the same sense (exactly one of "\<open>poolA.token0\<close> is \<open>tokenIn\<close>" and
  "\<open>poolB.token0\<close> is \<open>tokenOut\<close>" holds: both swaps multiply, or both divide), and where
  the start amount and the amount after the first swap lie between \<open>2 ^ -1000\<close> and
  \<open>2 ^ 1000\<close>. Then the profit is finite and zero up to rounding: its magnitude is at
  most the start amount times \<open>2 ^ -50\<close>.
\<close>

theorem C8_round_trip_profit_bound:
  assumes "swapFeeA inp = Num 0" "swapFeeB inp = Num 0"
      "bridgeCostA inp = Num 0" "bridgeCostB inp = Num 0"
    and "startAmount inp = Num s" "price (poolA inp) = Num pA" "price (poolB inp) = Num pB"
    and "0 < pA" "0 < pB"
    and "js_mul (Num pA) (Num pB) = Num 1"
    and "same_address (token0 (poolA inp)) (tokenIn inp)
           \<noteq> same_address (token0 (poolB inp)) (tokenOut inp)"
    and "1 / 2 ^ 1000 \<le> s" "s \<le> 2 ^ 1000"
    and "1 / 2 ^ 1000
           \<le> (if same_address (token0 (poolA inp)) (tokenIn inp) then s * pA else s / pA)"
      "(if same_address (token0 (poolA inp)) (tokenIn inp) then s * pA else s / pA)
           \<le> 2 ^ 1000"
  shows "is_finite (profit (simulateDirection inp)) \<and>
         \<bar>val (profit (simulateDirection inp))\<bar> \<le> s / 2 ^ 50"
  using assms by (rule round_trip_profit)

text \<open>
  Against a zero profit whenever the prices multiply to 1: when both pools list the start
  token first, pool A multiplies by its price and pool B divides by its own. With prices
  2 and 1/2, one token comes back as four, a profit of 3.
\<close>

theorem C8_same_first_token_profit:
  "js_mul (price (poolA (free_round_trip (Num 1) (Num 2) (Num (1 / 2)) ''0xA'' ''0xA'')))
          (price (poolB (free_round_trip (Num 1) (Num 2) (Num (1 / 2)) ''0xA'' ''0xA''))) = Num 1 \<and>
   swapFeeA (free_round_trip (Num 1) (Num 2) (Num (1 / 2)) ''0xA'' ''0xA'') = Num 0 \<and>
   swapFeeB (free_round_trip (Num 1) (Num 2) (Num (1 / 2)) ''0xA'' ''0xA'') = Num 0 \<and>
   bridgeCostA (free_round_trip (Num 1) (Num 2) (Num (1 / 2)) ''0xA'' ''0xA'') = Num 0 \<and>
   bridgeCostB (free_round_trip (Num 1) (Num 2) (Num (1 / 2)) ''0xA'' ''0xA'') = Num 0 \<and>
   profit (simulateDirection (free_round_trip (Num 1) (Num 2) (Num (1 / 2)) ''0xA'' ''0xA''))
     = Num 3"
  using same_first_run by (simp add: free_round_trip_def)

text \<open>Ten tokens over prices 4 and 1/4, multiplying twice, come back as ten.\<close>

theorem C8_round_trip_witness:
  "js_mul (Num 4) (Num (1 / 4)) = Num 1 \<and>
   same_address (token0 (poolA (free_round_trip (Num 10) (Num 4) (Num (1 / 4)) ''0xA'' ''0xB'')))
                (tokenIn (free_round_trip (Num 10) (Num 4) (Num (1 / 4)) ''0xA'' ''0xB'')) \<and>
   \<not> same_address (token0 (poolB (free_round_trip (Num 10) (Num 4) (Num (1 / 4)) ''0xA'' ''0xB'')))
                  (tokenOut (free_round_trip (Num 10) (Num 4) (Num (1 / 4)) ''0xA'' ''0xB'')) \<and>
   is_finite (profit (simulateDirection
      (free_round_trip (Num 10) (Num 4) (Num (1 / 4)) ''0xA'' ''0xB''))) \<and>
   \<bar>val (profit (simulateDirection
      (free_round_trip (Num 10) (Num 4) (Num (1 / 4)) ''0xA'' ''0xB'')))\<bar> \<le> 10 / 2 ^ 50"
proof -
  let ?i = "free_round_trip (Num 10) (Num 4) (Num (1 / 4)) ''0xA'' ''0xB''"
  have one: "js_mul (Num 4) (Num (1 / 4)) = Num 1" by (simp add: js_mul_def)
  have a: "same_address (token0 (poolA ?i)) (tokenIn ?i)"
    and b: "\<not> same_address (token0 (poolB ?i)) (tokenOut ?i)"
    by (simp_all add: free_round_trip_def same_address_def addr_ne)
  have sense: "same_address (token0 (poolA ?i)) (tokenIn ?i)
                 \<noteq> same_address (token0 (poolB ?i)) (tokenOut ?i)"
    using a b by simp
  have r: "(1::real) / 2 ^ 1000 \<le> 10" "(10::real) \<le> 2 ^ 1000"
    "1 / 2 ^ 1000 \<le> (if same_address (token0 (poolA ?i)) (tokenIn ?i)
                        then 10 * 4 else 10 / (4::real))"
    "(if same_address (token0 (poolA ?i)) (tokenIn ?i) then 10 * 4 else 10 / (4::real))
       \<le> 2 ^ 1000"
    using a by simp_all
  have "is_finite (profit (simulateDirection ?i)) \<and>
        \<bar>val (profit (simulateDirection ?i))\<bar> \<le> 10 / 2 ^ 50"
    by (rule C8_round_trip_profit_bound[of ?i 10 4 "1 / 4", OF _ _ _ _ _ _ _ _ _ one sense r])
      (simp_all add: free_round_trip_def)
  then show ?thesis using one a b by blast
qed

text \<open>
  Claim C9, as the code has it. A zero fee leaves every number unchanged. For a finite
  amount above zero the amount after the fee does not increase when the fee fraction grows
  within \<open>[0, 1)\<close>. It decreases strictly when the amount is a normal number (at least
  \<open>2 ^ -1022\<close>) and the two fee fractions are at least \<open>2 ^ -50\<close> apart; closer fees, or
  a smaller amount, can give the same rounded result.
\<close>

theorem C9_zero_fee_identity_fee_decreasing:
  "(is_double amount \<longrightarrow> applySwapFee amount (Num 0) = amount) \<and>
   (is_double (Num a) \<and> 0 < a \<and> 0 \<le> f1 \<and> f1 \<le> f2 \<and> f2 < 1
      \<longrightarrow> js_le (applySwapFee (Num a) (Num f2)) (applySwapFee (Num a) (Num f1))) \<and>
   (is_double (Num a) \<and> 1 / 2 ^ 1022 \<le> a \<and> 0 \<le> f1 \<and> f1 + 1 / 2 ^ 50 \<le> f2 \<and> f2 < 1
      \<longrightarrow> js_lt (applySwapFee (Num a) (Num f2)) (applySwapFee (Num a) (Num f1)))"
  using applySwapFee_zero fee_monotone fee_strict by blast

text \<open>
  Against "strictly decreasing" for every amount and every pair of fees: the fees 0 and
  \<open>2 ^ -60\<close> leave the amount 1 at 1, since \<open>1 - 2 ^ -60\<close> rounds to 1; and the fees 0 and
  1/4 leave the least positive number \<open>2 ^ -1074\<close> where it is, since three quarters of
  it round back to it.
\<close>

theorem C9_fees_with_equal_amounts:
  "js_lt (Num 0) (Num 1) \<and> js_le (Num 0) (Num 0) \<and>
   js_lt (Num 0) (Num (1 / 2 ^ 60)) \<and> js_lt (Num (1 / 2 ^ 60)) (Num 1) \<and>
   is_double (Num (1 / 2 ^ 60)) \<and>
   applySwapFee (Num 1) (Num (1 / 2 ^ 60)) = Num 1 \<and> applySwapFee (Num 1) (Num 0) = Num 1 \<and>
   \<not> js_lt (applySwapFee (Num 1) (Num (1 / 2 ^ 60))) (applySwapFee (Num 1) (Num 0)) \<and>
   is_double (Num (2 powi (- 1074))) \<and> js_lt (Num 0) (Num (2 powi (- 1074))) \<and>
   is_double (Num (1 / 4)) \<and> js_lt (Num 0) (Num (1 / 4)) \<and> js_lt (Num (1 / 4)) (Num 1) \<and>
   applySwapFee (Num (2 powi (- 1074))) (Num (1 / 4)) = Num (2 powi (- 1074)) \<and>
   applySwapFee (Num (2 powi (- 1074))) (Num 0) = Num (2 powi (- 1074)) \<and>
   \<not> js_lt (applySwapFee (Num (2 powi (- 1074))) (Num (1 / 4)))
           (applySwapFee (Num (2 powi (- 1074))) (Num 0))"
proof -
  define m :: real where "m = 2 powi (- 1074)"
  have mpos: "0 < m" unfolding m_def by simp
  have one: "js_lt (Num 0) (Num 1) \<and> js_le (Num 0) (Num 0) \<and>
     js_lt (Num 0) (Num (1 / 2 ^ 60)) \<and> js_lt (Num (1 / 2 ^ 60)) (Num 1) \<and>
     is_double (Num (1 / 2 ^ 60)) \<and>
     applySwapFee (Num 1) (Num (1 / 2 ^ 60)) = Num 1 \<and> applySwapFee (Num 1) (Num 0) = Num 1 \<and>
     \<not> js_lt (applySwapFee (Num 1) (Num (1 / 2 ^ 60))) (applySwapFee (Num 1) (Num 0))"
    using fee_not_strict small_fee_is_double by (simp add: js_lt_def js_le_def)
  have least: "is_double (Num m) \<and> applySwapFee (Num m) (Num 0) = Num m \<and>
     applySwapFee (Num m) (Num (1 / 4)) = Num m"
    unfolding m_def by (rule fee_on_least_amount)
  have pos: "js_lt (Num 0) (Num m)" using mpos by (simp add: js_lt_def)
  have quarter: "js_lt (Num 0) (Num (1 / 4)) \<and> js_lt (Num (1 / 4)) (Num 1)"
    by (simp add: js_lt_def)
  have "\<not> js_lt (Num m) (Num m)" by (simp add: js_lt_def)
  then have same: "\<not> js_lt (applySwapFee (Num m) (Num (1 / 4))) (applySwapFee (Num m) (Num 0))"
    using least by simp
  show ?thesis
    unfolding m_def[symmetric] using one least pos quarter quarter_is_double same by blast
qed

text \<open>The amount 10 under the fees 0 and 1/2.\<close>

theorem C9_fee_witness:
  "is_double (Num 10) \<and> applySwapFee (Num 10) (Num 0) = Num 10 \<and>
   applySwapFee (Num 10) (Num (1 / 2)) = Num 5 \<and>
   js_le (applySwapFee (Num 10) (Num (1 / 2))) (applySwapFee (Num 10) (Num 0)) \<and>
   js_lt (applySwapFee (Num 10) (Num (1 / 2))) (applySwapFee (Num 10) (Num 0))"
proof -
  have d: "is_double (Num 10)" by simp
  have h: "applySwapFee (Num 10) (Num (1 / 2)) = Num 5"
    by (simp add: applySwapFee_def js_sub_def js_add_def js_mul_def js_round_half)
  have z: "applySwapFee (Num 10) (Num 0) = Num 10"
    using d C9_zero_fee_identity_fee_decreasing[of "Num 10" 10 0 "1 / 2"] by blast
  have c: "is_double (Num 10) \<and> (0::real) < 10 \<and> (0::real) \<le> 0 \<and> (0::real) \<le> 1 / 2
           \<and> (1::real) / 2 < 1"
    using d by simp
  have le: "js_le (applySwapFee (Num 10) (Num (1 / 2))) (applySwapFee (Num 10) (Num 0))"
    using c C9_zero_fee_identity_fee_decreasing[of "Num 10" 10 0 "1 / 2"] by blast
  have s: "is_double (Num 10) \<and> (1::real) / 2 ^ 1022 \<le> 10 \<and> (0::real) \<le> 0
           \<and> (0::real) + 1 / 2 ^ 50 \<le> 1 / 2 \<and> (1::real) / 2 < 1"
    using d by simp
  have "js_lt (applySwapFee (Num 10) (Num (1 / 2))) (applySwapFee (Num 10) (Num 0))"
    using s C9_zero_fee_identity_fee_decreasing[of "Num 10" 10 0 "1 / 2"] by blast
  then show ?thesis using d h z le by blast
qed

text \<open>
  Claim C10. In \<^verbatim>\<open>mockSwap\<close>, when the two tokens are equal up to letter case, the
  price takes no part: the amount out is the fixed-point amount in, times the fixed-point
  \<open>1 - fee\<close>, less the slippage fraction of that product, all in truncating 6-decimal
  bigint arithmetic, and converted back to a number.
\<close>

theorem C10_mockSwap_same_token:
  assumes "toLowerCase fromToken = toLowerCase toToken"
    and "bn rt amountIn 6 = Inr amountInBN"
    and "bn rt swapPrice 6 = Inr priceBN"
    and "bn rt (js_sub (Num 1) fee) 6 = Inr feeBN"
    and "bn rt (case slip of None \<Rightarrow> js_lit (5 / 10000) | Some x \<Rightarrow> x) 6
           = Inr slippageFractionBN"
    and "parseUnits rt ''1'' 6 = Inr 1000000"
  shows "snd (mockSwap rt dex chain fromToken toToken amountIn swapPrice fee slip) =
     Inr \<lparr>amountOut =
            bnToNum rt
              (fixed6_mul amountInBN feeBN
               - fixed6_mul (fixed6_mul amountInBN feeBN) slippageFractionBN) 6,
          txHash = randomTxHash rt\<rparr>"
  using assms by (rule mockSwap_same_token)

text \<open>
  A swap of 10 USDC for USDC written in lower case, at price 0, without fee or slippage,
  returns 10.
\<close>

theorem C10_same_token_witness:
  "toLowerCase USDC = toLowerCase ''0xb97ef9ef8734c71904d8002f8b6bc66dd9c48a6e'' \<and>
   USDC \<noteq> ''0xb97ef9ef8734c71904d8002f8b6bc66dd9c48a6e'' \<and>
   snd (mockSwap sample_runtime ''Pharaoh'' ''Avalanche'' USDC
          ''0xb97ef9ef8734c71904d8002f8b6bc66dd9c48a6e'' (Num 10) (Num 0) (Num 0)
          (Some (Num 0)))
     = Inr \<lparr>amountOut = Num 10, txHash = ''0x2386f26fc10000''\<rparr>"
proof -
  have 1: "toLowerCase USDC = toLowerCase ''0xb97ef9ef8734c71904d8002f8b6bc66dd9c48a6e''"
    by (simp add: usdc_lower usdc_lower_fixed)
  have 2: "bn sample_runtime (Num 10) 6 = Inr 10000000"
    by (simp add: bn_def sample_runtime_def)
  have 3: "bn sample_runtime (Num 0) 6 = Inr 0"
    by (simp add: bn_def sample_runtime_def)
  have 4: "bn sample_runtime (js_sub (Num 1) (Num 0)) 6 = Inr 1000000"
    by (simp add: bn_def sample_runtime_def)
  have 5: "bn sample_runtime (case Some (Num 0) of None \<Rightarrow> js_lit (5 / 10000) | Some x \<Rightarrow> x) 6
             = Inr 0"
    by (simp add: bn_def sample_runtime_def)
  have 6: "parseUnits sample_runtime ''1'' 6 = Inr 1000000"
    by (simp add: sample_runtime_def)
  have 7: "bnToNum sample_runtime
             (fixed6_mul 10000000 1000000 - fixed6_mul (fixed6_mul 10000000 1000000) 0) 6
           = Num 10"
    by (simp add: bnToNum_def sample_runtime_def fixed6_mul_def trunc_div_def)
  have 8: "USDC \<noteq> ''0xb97ef9ef8734c71904d8002f8b6bc66dd9c48a6e''"
    by (simp add: USDC_def)
  have 9: "randomTxHash sample_runtime = ''0x2386f26fc10000''"
    by (simp add: sample_runtime_def)
  show ?thesis
    unfolding C10_mockSwap_same_token[OF 1 2 3 4 5 6, of "''Pharaoh''" "''Avalanche''"] 7 9
    using 1 8 by blast
qed

end
